theory Spec2Isabelle
  imports Main "HOL-Library.Sublist" "HOL-Library.AList"
begin

section \<open>JavaScript strings\<close>

text \<open>
  Text is modelled as \<^typ>\<open>string\<close>, a list of 8-bit code units. The string methods the
  adapters and the provider use are written out below; each follows the method of
  \<^verbatim>\<open>String.prototype\<close> it is named after.
\<close>

definition startsWith :: "string \<Rightarrow> string \<Rightarrow> bool" where
  "startsWith s p = prefix p s"

definition endsWith :: "string \<Rightarrow> string \<Rightarrow> bool" where
  "endsWith s p = suffix p s"

text \<open>\<^verbatim>\<open>s.indexOf(p)\<close>: the first position where \<open>p\<close> occurs; \<open>None\<close> is the \<^verbatim>\<open>-1\<close> of the source.\<close>

fun indexOf :: "string \<Rightarrow> string \<Rightarrow> nat option" where
  "indexOf [] p = (if p = [] then Some 0 else None)"
| "indexOf (c # cs) p =
     (if prefix p (c # cs) then Some 0 else map_option Suc (indexOf cs p))"

definition includes_str :: "string \<Rightarrow> string \<Rightarrow> bool" where
  "includes_str s p = (indexOf s p \<noteq> None)"

text \<open>\<^verbatim>\<open>s.trim()\<close> removes white space and line terminators at both ends.\<close>

definition isWhiteSpace :: "char \<Rightarrow> bool" where
  "isWhiteSpace c = (c \<in> {CHR 0x20, CHR 0x09, CHR 0x0A, CHR 0x0B, CHR 0x0C, CHR 0x0D, CHR 0xA0})"

definition trim :: "string \<Rightarrow> string" where
  "trim s = rev (dropWhile isWhiteSpace (rev (dropWhile isWhiteSpace s)))"

section \<open>JSON values and the JavaScript runtime\<close>

text \<open>
  A parsed JSON value. An object keeps its members in the order read; numbers are
  integers (stream indices are; fractional numbers are outside the embedding).
\<close>

datatype json = JNull | JBool bool | JNum int | JStr string
  | JArr "json list" | JObj "(string \<times> json) list"

text \<open>
  What the code takes from the JavaScript runtime and from the host is a parameter of the
  model: \<^verbatim>\<open>JSON.parse\<close> (\<open>None\<close> when it throws), \<^verbatim>\<open>JSON.stringify\<close>, the
  numeric comparison \<^verbatim>\<open>v > 0\<close> with its coercions, \<^verbatim>\<open>TextDecoder.decode\<close>, and
  whether the host has a \<^verbatim>\<open>LanguageModelThinkingPart\<close>.
\<close>

record runtime =
  JSON_parse :: "string \<Rightarrow> json option"
  JSON_stringify :: "json \<Rightarrow> string"
  greaterThanZero :: "json \<Rightarrow> bool"
  TextDecoder_decode :: "string \<Rightarrow> string"
  hostHasThinkingPart :: bool

text \<open>Truthiness of a JSON value; \<open>None\<close> stands for \<^verbatim>\<open>undefined\<close>.\<close>

fun truthy :: "json \<Rightarrow> bool" where
  "truthy JNull = False"
| "truthy (JBool b) = b"
| "truthy (JNum n) = (n \<noteq> 0)"
| "truthy (JStr s) = (s \<noteq> [])"
| "truthy (JArr xs) = True"
| "truthy (JObj ms) = True"

text \<open>The value of a condition \<^verbatim>\<open>if (v)\<close> that holds: \<open>v\<close> itself when it is truthy.\<close>

definition truthyValue :: "json option \<Rightarrow> json option" where
  "truthyValue v = (case v of None \<Rightarrow> None | Some j \<Rightarrow> if truthy j then Some j else None)"

text \<open>
  \<^verbatim>\<open>v.k\<close> for a named property \<open>k\<close> of a value that is neither \<^verbatim>\<open>null\<close> nor
  \<^verbatim>\<open>undefined\<close>: only an object has one, and \<^verbatim>\<open>JSON.parse\<close> lets the last of several
  members with the same key win.
\<close>

fun getProp :: "json \<Rightarrow> string \<Rightarrow> json option" where
  "getProp (JObj ms) k = map_of (rev ms) k"
| "getProp v k = None"

text \<open>\<^verbatim>\<open>v?.k\<close>: \<^verbatim>\<open>undefined\<close> when \<open>v\<close> is \<^verbatim>\<open>undefined\<close> or \<^verbatim>\<open>null\<close>.\<close>

fun optProp :: "json option \<Rightarrow> string \<Rightarrow> json option" where
  "optProp None k = None"
| "optProp (Some JNull) k = None"
| "optProp (Some v) k = getProp v k"

text \<open>\<^verbatim>\<open>a ?? b\<close>.\<close>

fun nullish :: "json option \<Rightarrow> json option \<Rightarrow> json option" where
  "nullish None b = b"
| "nullish (Some JNull) b = b"
| "nullish (Some v) b = Some v"

text \<open>\<^verbatim>\<open>typeof v === "string" ? v : undefined\<close>.\<close>

fun asString :: "json option \<Rightarrow> string option" where
  "asString (Some (JStr s)) = Some s"
| "asString v = None"

text \<open>\<^verbatim>\<open>v[0]\<close> for a value that is neither \<^verbatim>\<open>null\<close> nor \<^verbatim>\<open>undefined\<close>.\<close>

fun index0 :: "json \<Rightarrow> json option" where
  "index0 (JArr xs) = (case xs of [] \<Rightarrow> None | x # _ \<Rightarrow> Some x)"
| "index0 (JStr s) = (case s of [] \<Rightarrow> None | c # _ \<Rightarrow> Some (JStr [c]))"
| "index0 (JObj ms) = getProp (JObj ms) ''0''"
| "index0 v = None"

text \<open>
  \<^verbatim>\<open>v.length > 0\<close> for a truthy value: the length of an array or a string, the
  \<^verbatim>\<open>length\<close> member of an object (compared by the runtime), \<^verbatim>\<open>undefined\<close> otherwise.
\<close>

fun lengthGreaterThanZero :: "runtime \<Rightarrow> json \<Rightarrow> bool" where
  "lengthGreaterThanZero rt (JArr xs) = (xs \<noteq> [])"
| "lengthGreaterThanZero rt (JStr s) = (s \<noteq> [])"
| "lengthGreaterThanZero rt (JObj ms) =
     (case getProp (JObj ms) ''length'' of None \<Rightarrow> False | Some l \<Rightarrow> greaterThanZero rt l)"
| "lengthGreaterThanZero rt v = False"

text \<open>Decimal digits of a natural number and of an integer.\<close>

fun showNat :: "nat \<Rightarrow> string" where
  "showNat n = (if n < 10 then [char_of (48 + n)] else showNat (n div 10) @ [char_of (48 + n mod 10)])"

declare showNat.simps [simp del]

definition showInt :: "int \<Rightarrow> string" where
  "showInt i = (if i < 0 then CHR ''-'' # showNat (nat (- i)) else showNat (nat i))"

text \<open>\<^verbatim>\<open>xs.join(sep)\<close> for strings.\<close>

fun joinWith :: "string \<Rightarrow> string list \<Rightarrow> string" where
  "joinWith sep [] = []"
| "joinWith sep [x] = x"
| "joinWith sep (x # y # ys) = x @ sep @ joinWith sep (y # ys)"

text \<open>
  \<^verbatim>\<open>String(v)\<close>: an array is its elements joined by commas, \<^verbatim>\<open>null\<close> among them as the
  empty string.
\<close>

fun js_String :: "json \<Rightarrow> string" where
  "js_String JNull = ''null''"
| "js_String (JBool b) = (if b then ''true'' else ''false'')"
| "js_String (JNum n) = showInt n"
| "js_String (JStr s) = s"
| "js_String (JArr xs) = joinWith '','' (map (\<lambda>x. if x = JNull then [] else js_String x) xs)"
| "js_String (JObj ms) = ''[object Object]''"

section \<open>Stream events\<close>

text \<open>
  \<^verbatim>\<open>StreamEventResult\<close> of the adapters. The index of a tool call is what upstream sent
  (declared \<^verbatim>\<open>number\<close>), so the event type leaves it open; a finish reason is the JSON
  value of \<^verbatim>\<open>finish_reason\<close>.
\<close>

datatype 'i StreamEvent =
    EvText string
  | EvToolCall 'i "string option" "string option" "string option"
  | EvThinking string "string option" "json option"
  | EvStatefulMarker string
  | EvFinish json
  | EvDone
  | EvSkip

section \<open>The chat-protocol stream parser\<close>

text \<open>
  The thinking branch of \<^verbatim>\<open>ChatCompletionsAdapter.parseStreamEvent\<close>: the event returned
  for \<^verbatim>\<open>maybeThinking\<close>, or \<open>None\<close> when the branch returns nothing.
\<close>

definition thinkingEvent :: "json option \<Rightarrow> json StreamEvent option" where
  "thinkingEvent maybeThinking =
     (case maybeThinking of
        None \<Rightarrow> None
      | Some mt \<Rightarrow>
          (let (text, ident, metadata) =
                 (case mt of
                    JObj ms \<Rightarrow>
                      (case asString (getProp mt ''text'') of Some t \<Rightarrow> t | None \<Rightarrow> [],
                       asString (getProp mt ''id''), getProp mt ''metadata'')
                  | JArr xs \<Rightarrow> ([], None, None)
                  | JStr t \<Rightarrow> (t, None, None)
                  | _ \<Rightarrow> ([], None, None))
           in if text \<noteq> [] then Some (EvThinking text ident metadata) else None))"

text \<open>
  The event returned for the first entry \<open>tc\<close> of \<^verbatim>\<open>tool_calls\<close>: the index as upstream
  gave it (\<open>0\<close> when it is missing or \<^verbatim>\<open>null\<close>), and the id, the name and the arguments
  when they are strings.
\<close>

definition toolCallEvent :: "json \<Rightarrow> json StreamEvent" where
  "toolCallEvent tc =
     (let idx = (case nullish (getProp tc ''index'') (Some (JNum 0)) of Some v \<Rightarrow> v | None \<Rightarrow> JNum 0);
          func = getProp tc ''function''
      in EvToolCall idx (asString (getProp tc ''id''))
           (asString (optProp func ''name'')) (asString (optProp func ''arguments'')))"

text \<open>
  The body of the \<^verbatim>\<open>try\<close> block after \<^verbatim>\<open>JSON.parse\<close>. \<open>None\<close> is a \<^verbatim>\<open>TypeError\<close>:
  reading \<^verbatim>\<open>parsed.choices\<close> of \<^verbatim>\<open>null\<close>, or \<^verbatim>\<open>tc.index\<close> of a first entry that is
  \<^verbatim>\<open>null\<close> or missing.
\<close>

definition ChatCompletionsAdapter_payload :: "runtime \<Rightarrow> json \<Rightarrow> json StreamEvent option" where
  "ChatCompletionsAdapter_payload rt parsed =
     (if parsed = JNull then None
      else
        (case (case nullish (getProp parsed ''choices'') None of None \<Rightarrow> None | Some cs \<Rightarrow> index0 cs) of
           None \<Rightarrow> Some EvSkip
         | Some choice \<Rightarrow>
             if \<not> truthy choice then Some EvSkip
             else
               (let deltaObj = getProp choice ''delta'';
                    maybeThinking =
                      nullish (getProp choice ''reasoning_content'') (optProp deltaObj ''reasoning_content'')
                in case thinkingEvent maybeThinking of
                     Some ev \<Rightarrow> Some ev
                   | None \<Rightarrow>
                       (case truthyValue (optProp deltaObj ''content'') of
                          Some content \<Rightarrow> Some (EvText (js_String content))
                        | None \<Rightarrow>
                            (let finish =
                                   (case truthyValue (nullish (getProp choice ''finish_reason'') None) of
                                      Some reason \<Rightarrow> Some (EvFinish reason)
                                    | None \<Rightarrow> Some EvSkip)
                             in case truthyValue (optProp deltaObj ''tool_calls'') of
                                  Some toolCalls \<Rightarrow>
                                    if lengthGreaterThanZero rt toolCalls then
                                      (case index0 toolCalls of
                                         None \<Rightarrow> None
                                       | Some tc \<Rightarrow>
                                           if tc = JNull then None else Some (toolCallEvent tc))
                                    else finish
                                | None \<Rightarrow> finish)))))"

text \<open>
  \<^verbatim>\<open>ChatCompletionsAdapter.parseStreamEvent\<close>. The \<^verbatim>\<open>catch\<close> turns an exception of
  \<^verbatim>\<open>JSON.parse\<close> or of the body into \<^verbatim>\<open>skip\<close>.
\<close>

definition ChatCompletionsAdapter_parseStreamEvent :: "runtime \<Rightarrow> string \<Rightarrow> json StreamEvent" where
  "ChatCompletionsAdapter_parseStreamEvent rt line =
     (if \<not> startsWith line ''data:'' then EvSkip
      else
        (let data = trim (drop 5 line) in
           if data = ''[DONE]'' then EvDone
           else
             (case JSON_parse rt data of
                None \<Rightarrow> EvSkip
              | Some parsed \<Rightarrow>
                  (case ChatCompletionsAdapter_payload rt parsed of
                     None \<Rightarrow> EvSkip
                   | Some ev \<Rightarrow> ev))))"

section \<open>The items-protocol stream parser\<close>

text \<open>The fields of \<^verbatim>\<open>ResponsesAdapter\<close>, kept for the length of one connection.\<close>

record ResponsesAdapter =
  toolCallIndexById :: "(string \<times> nat) list"
  nextToolCallIndex :: nat
  sawOutputTextDelta :: bool
  lastSseEventType :: "string option"
  emittedTextItemKeys :: "string set"

text \<open>
  \<^verbatim>\<open>ResponsesAdapter.parseStreamEvent\<close>. The dispatch on the parsed payload (everything
  after \<^verbatim>\<open>JSON.parse\<close> inside the \<^verbatim>\<open>try\<close> block) is the parameter \<open>dispatch\<close>: it
  returns the adapter's fields as it leaves them and the event, or \<open>None\<close> for an exception,
  which the \<^verbatim>\<open>catch\<close> turns into \<^verbatim>\<open>skip\<close>.
\<close>

definition ResponsesAdapter_parseStreamEvent ::
  "runtime \<Rightarrow> (ResponsesAdapter \<Rightarrow> json \<Rightarrow> ResponsesAdapter \<times> json StreamEvent option) \<Rightarrow>
   ResponsesAdapter \<Rightarrow> string \<Rightarrow> ResponsesAdapter \<times> json StreamEvent" where
  "ResponsesAdapter_parseStreamEvent rt dispatch this line =
     (if startsWith line ''event:'' then
        (let ev = trim (drop 6 line) in
           (this\<lparr>lastSseEventType := Some (if ev \<noteq> [] then ev else ''message'')\<rparr>, EvSkip))
      else if \<not> startsWith line ''data:'' then (this, EvSkip)
      else
        (let data = trim (drop 5 line) in
           if data = ''[DONE]'' then (this, EvDone)
           else
             (case JSON_parse rt data of
                None \<Rightarrow> (this, EvSkip)
              | Some parsed \<Rightarrow>
                  (case dispatch this parsed of
                     (this', None) \<Rightarrow> (this', EvSkip)
                   | (this', Some ev) \<Rightarrow> (this', ev)))))"

section \<open>The provider: per-turn state and emitted parts\<close>

text \<open>
  The identifier of an emitted tool call: the one upstream sent, or one the provider draws
  at random (\<^verbatim>\<open>call_...\<close> for the delta channel, \<^verbatim>\<open>tct_...\<close> for the inline channel).
\<close>

datatype call_id = CallId string | RandomCallId | RandomTctId

text \<open>The parts reported to the progress sink.\<close>

datatype part =
    TextPart string
  | ToolCallPart call_id string json
  | ThinkingPart string "string option" "json option"
  | DataPart string string

datatype error = InvalidJSONForToolCall

record ToolCallBuffer =
  buf_id :: "string option"
  buf_name :: "string option"
  buf_args :: string

record TextToolActive =
  call_name :: "string option"
  call_index :: "nat option"
  argBuffer :: string
  emitted :: bool

text \<open>
  The mutable fields of \<^verbatim>\<open>OpenAICustomChatModelProvider\<close> that a turn uses. The
  \<^verbatim>\<open>Map\<close> of buffers is a list of entries in insertion order.
\<close>

record 'i provider =
  toolCallBuffers :: "('i \<times> ToolCallBuffer) list"
  completedToolCallIndices :: "'i set"
  hasEmittedAssistantText :: bool
  emittedBeginToolCallsHint :: bool
  textToolParserBuffer :: string
  textToolActive :: "TextToolActive option"
  emittedTextToolCallKeys :: "string set"
  emittedTextToolCallIds :: "string set"

text \<open>
  Modelled from the spec: \<^verbatim>\<open>tryParseJSONObject\<close> of \<^verbatim>\<open>utils.ts\<close>, which is not among
  the sources. It succeeds, with the parsed value, exactly when the text parses as a JSON
  object.
\<close>

definition tryParseJSONObject :: "runtime \<Rightarrow> string \<Rightarrow> json option" where
  "tryParseJSONObject rt text =
     (case JSON_parse rt text of Some (JObj ms) \<Rightarrow> Some (JObj ms) | _ \<Rightarrow> None)"

section \<open>The inline tool-call tokenizer\<close>

definition BEGIN :: string where "BEGIN = ''<|tool_call_begin|>''"
definition ARG_BEGIN :: string where "ARG_BEGIN = ''<|tool_call_argument_begin|>''"
definition END :: string where "END = ''<|tool_call_end|>''"

definition isDigit :: "char \<Rightarrow> bool" where
  "isDigit c = (48 \<le> (of_char c :: nat) \<and> (of_char c :: nat) \<le> 57)"

definition isAlpha :: "char \<Rightarrow> bool" where
  "isAlpha c = ((65 \<le> (of_char c :: nat) \<and> (of_char c :: nat) \<le> 90)
     \<or> (97 \<le> (of_char c :: nat) \<and> (of_char c :: nat) \<le> 122))"

text \<open>The character class \<^verbatim>\<open>[a-zA-Z0-9_-]\<close>.\<close>

definition isSectionChar :: "char \<Rightarrow> bool" where
  "isSectionChar c = (isAlpha c \<or> isDigit c \<or> c = CHR ''_'' \<or> c = CHR ''-'')"

text \<open>
  The length of a match of \<^verbatim>\<open>/<\|[a-zA-Z0-9_-]+_section_(?:begin|end)\|>/\<close> at the start
  of the text. The bar is outside the class, so the class run of a match is the whole run
  after \<^verbatim>\<open><|\<close>.
\<close>

definition sectionMarkerLength :: "string \<Rightarrow> nat option" where
  "sectionMarkerLength s =
     (if \<not> prefix ''<|'' s then None
      else
        (let run = takeWhile isSectionChar (drop 2 s);
             rest = dropWhile isSectionChar (drop 2 s)
         in if prefix ''|>'' rest
               \<and> ((suffix ''_section_begin'' run \<and> length ''_section_begin'' < length run)
                  \<or> (suffix ''_section_end'' run \<and> length ''_section_end'' < length run))
            then Some (length run + 4) else None))"

text \<open>
  The length of a match of \<^verbatim>\<open>/<\|tool_call_(?:argument_)?(?:begin|end)\|>/\<close> at the start
  of the text.
\<close>

definition toolCallMarkerLength :: "string \<Rightarrow> nat option" where
  "toolCallMarkerLength s =
     (if prefix ''<|tool_call_argument_begin|>'' s then Some (length ''<|tool_call_argument_begin|>'')
      else if prefix ''<|tool_call_argument_end|>'' s then Some (length ''<|tool_call_argument_end|>'')
      else if prefix ''<|tool_call_begin|>'' s then Some (length ''<|tool_call_begin|>'')
      else if prefix ''<|tool_call_end|>'' s then Some (length ''<|tool_call_end|>'')
      else None)"

text \<open>
  \<^verbatim>\<open>text.replace(re, "")\<close> for a global pattern whose matches are not empty: \<open>skip\<close>
  counts the characters of the current match still to drop.
\<close>

fun removeMatches :: "(string \<Rightarrow> nat option) \<Rightarrow> nat \<Rightarrow> string \<Rightarrow> string" where
  "removeMatches m skip [] = []"
| "removeMatches m (Suc skip) (c # cs) = removeMatches m skip cs"
| "removeMatches m 0 (c # cs) =
     (case m (c # cs) of
        Some n \<Rightarrow> removeMatches m (n - 1) cs
      | None \<Rightarrow> c # removeMatches m 0 cs)"

definition stripControlTokens :: "string \<Rightarrow> string" where
  "stripControlTokens text =
     removeMatches toolCallMarkerLength 0 (removeMatches sectionMarkerLength 0 text)"

text \<open>
  The loop of \<^verbatim>\<open>longestPartialPrefix\<close>, counting \<open>k\<close> down: the largest \<open>k\<close> at or below
  the start for which the data ends with the first \<open>k\<close> characters of the token.
\<close>

fun partialPrefixFrom :: "string \<Rightarrow> nat \<Rightarrow> nat" where
  "partialPrefixFrom data 0 = 0"
| "partialPrefixFrom data (Suc k) =
     (if endsWith data (take (Suc k) BEGIN) then Suc k else partialPrefixFrom data k)"

definition longestPartialPrefix :: "string \<Rightarrow> nat" where
  "longestPartialPrefix data = partialPrefixFrom data (min (length BEGIN - 1) (length data - 1))"

text \<open>The character class \<^verbatim>\<open>[A-Za-z0-9_\-.]\<close> of a tool name in a header.\<close>

definition isNameChar :: "char \<Rightarrow> bool" where
  "isNameChar c = (isAlpha c \<or> isDigit c \<or> c = CHR ''_'' \<or> c = CHR ''-'' \<or> c = CHR ''.'')"

text \<open>
  \<^verbatim>\<open>Number(m[2])\<close> for a run of decimal digits: the number they write, which is the
  source's value up to \<open>2 ^ 53\<close>, where a double stops being exact.
\<close>

definition digitsValue :: "string \<Rightarrow> nat" where
  "digitsValue ds = foldl (\<lambda>n c. 10 * n + (of_char c - 48)) 0 ds"

text \<open>
  \<^verbatim>\<open>header.match(/^([A-Za-z0-9_\-.]+)(?::(\d+))?/)\<close>: the name and the index of the
  header.
\<close>

definition parseHeader :: "string \<Rightarrow> string option \<times> nat option" where
  "parseHeader header =
     (let nm = takeWhile isNameChar header; rest = dropWhile isNameChar header
      in if nm = [] then (None, None)
         else (Some nm,
               if prefix '':'' rest \<and> takeWhile isDigit (tl rest) \<noteq> []
               then Some (digitsValue (takeWhile isDigit (tl rest))) else None))"

text \<open>
  \<^verbatim>\<open>emitTextToolCallIfValid\<close>: whether it emitted, the provider afterwards and the parts
  reported.
\<close>

definition emitTextToolCallIfValid ::
  "runtime \<Rightarrow> 'i provider \<Rightarrow> TextToolActive \<Rightarrow> string \<Rightarrow> bool \<times> 'i provider \<times> part list" where
  "emitTextToolCallIfValid rt this call argText =
     (let name = (case call_name call of None \<Rightarrow> ''unknown_tool'' | Some n \<Rightarrow> n) in
        case tryParseJSONObject rt argText of
          None \<Rightarrow> (False, this, [])
        | Some parsed \<Rightarrow>
            (let canonical = JSON_stringify rt parsed;
                 key = name @ '':'' @ canonical;
                 emit = (\<lambda>t. (True,
                           t\<lparr>emittedTextToolCallKeys := insert key (emittedTextToolCallKeys t)\<rparr>,
                           [ToolCallPart RandomTctId name parsed]))
             in case call_index call of
                  Some idx \<Rightarrow>
                    (let idKey = name @ '':'' @ showNat idx in
                       if idKey \<in> emittedTextToolCallIds this then (False, this, [])
                       else emit (this\<lparr>emittedTextToolCallIds :=
                                         insert idKey (emittedTextToolCallIds this)\<rparr>))
                | None \<Rightarrow>
                    if key \<in> emittedTextToolCallKeys this then (False, this, []) else emit this))"

text \<open>
  The \<^verbatim>\<open>while\<close> loop of \<^verbatim>\<open>processTextContent\<close> over \<open>data\<close>, with the visible text
  gathered so far, \<^verbatim>\<open>emittedAny\<close> and the tool calls reported so far. It returns the
  \<open>data\<close> it leaves, which the caller stores as the parser buffer.
\<close>

function textToolLoop ::
  "runtime \<Rightarrow> 'i provider \<Rightarrow> string \<Rightarrow> string \<Rightarrow> bool \<Rightarrow> part list \<Rightarrow>
   'i provider \<times> string \<times> string \<times> bool \<times> part list" where
  "textToolLoop rt this data visibleOut emittedAny out =
     (if data = [] then (this, data, visibleOut, emittedAny, out)
      else
        (case textToolActive this of
           None \<Rightarrow>
             (case indexOf data BEGIN of
                None \<Rightarrow>
                  (let k = longestPartialPrefix data in
                     if k > 0 then
                       (let visible = take (length data - k) data in
                          (this\<lparr>textToolParserBuffer := drop (length data - k) data\<rparr>, [],
                           (if visible \<noteq> [] then visibleOut @ stripControlTokens visible
                            else visibleOut),
                           emittedAny, out))
                     else (this, [], visibleOut @ stripControlTokens data, emittedAny, out))
              | Some b \<Rightarrow>
                  (let pre = take b data;
                       visibleOut1 = (if pre \<noteq> [] then visibleOut @ stripControlTokens pre
                                      else visibleOut);
                       data1 = drop (b + length BEGIN) data;
                       a = indexOf data1 ARG_BEGIN;
                       e = indexOf data1 END;
                       delim =
                         (case a of
                            Some ai \<Rightarrow>
                              (case e of
                                 None \<Rightarrow> Some (ai, True)
                               | Some ei \<Rightarrow> if ai < ei then Some (ai, True) else Some (ei, False))
                          | None \<Rightarrow> (case e of None \<Rightarrow> None | Some ei \<Rightarrow> Some (ei, False)))
                   in case delim of
                        None \<Rightarrow>
                          (this\<lparr>textToolParserBuffer := BEGIN @ data1\<rparr>, [], visibleOut1,
                           emittedAny, out)
                      | Some (delimIdx, isArg) \<Rightarrow>
                          (let header = trim (take delimIdx data1);
                               active = \<lparr>call_name = fst (parseHeader header),
                                         call_index = snd (parseHeader header),
                                         argBuffer = [], emitted = False\<rparr>
                           in if isArg then
                                textToolLoop rt (this\<lparr>textToolActive := Some active\<rparr>)
                                  (drop (delimIdx + length ARG_BEGIN) data1) visibleOut1 emittedAny out
                              else
                                (case emitTextToolCallIfValid rt
                                        (this\<lparr>textToolActive := Some active\<rparr>) active ''{}'' of
                                   (did, this1, ps) \<Rightarrow>
                                     textToolLoop rt (this1\<lparr>textToolActive := None\<rparr>)
                                       (drop (delimIdx + length END) data1) visibleOut1
                                       (emittedAny \<or> did) (out @ ps)))))
         | Some act \<Rightarrow>
             (case indexOf data END of
                None \<Rightarrow>
                  (let act1 = act\<lparr>argBuffer := argBuffer act @ data\<rparr> in
                     if \<not> emitted act1 then
                       (case emitTextToolCallIfValid rt (this\<lparr>textToolActive := Some act1\<rparr>)
                               act1 (argBuffer act1) of
                          (did, this1, ps) \<Rightarrow>
                            (this1\<lparr>textToolActive := Some (act1\<lparr>emitted := did\<rparr>)\<rparr>, [],
                             visibleOut, emittedAny \<or> did, out @ ps))
                     else (this\<lparr>textToolActive := Some act1\<rparr>, [], visibleOut, emittedAny, out))
              | Some e2 \<Rightarrow>
                  (let act1 = act\<lparr>argBuffer := argBuffer act @ take e2 data\<rparr>;
                       data1 = drop (e2 + length END) data
                   in if \<not> emitted act1 then
                        (case emitTextToolCallIfValid rt (this\<lparr>textToolActive := Some act1\<rparr>)
                                act1 (argBuffer act1) of
                           (did, this1, ps) \<Rightarrow>
                             textToolLoop rt (this1\<lparr>textToolActive := None\<rparr>) data1 visibleOut
                               (emittedAny \<or> did) (out @ ps))
                      else textToolLoop rt (this\<lparr>textToolActive := None\<rparr>) data1 visibleOut
                             emittedAny out))))"
  by pat_completeness auto
termination
  by (relation "measure (\<lambda>(rt, this, data, visibleOut, emittedAny, out). length data)")
    (auto simp: BEGIN_def END_def)

declare textToolLoop.simps [simp del]

text \<open>
  \<^verbatim>\<open>processTextContent\<close>: the provider afterwards, \<^verbatim>\<open>emittedText\<close>, \<^verbatim>\<open>emittedAny\<close>
  and the parts reported, the tool calls of the loop first and the visible text last.
\<close>

definition processTextContent ::
  "runtime \<Rightarrow> 'i provider \<Rightarrow> string \<Rightarrow> 'i provider \<times> bool \<times> bool \<times> part list" where
  "processTextContent rt this input =
     (case textToolLoop rt this (textToolParserBuffer this @ input) [] False [] of
        (this1, data, visibleOut, emittedAny, out) \<Rightarrow>
          (if visibleOut \<noteq> [] then
             (this1\<lparr>textToolParserBuffer := data\<rparr>, True, True, out @ [TextPart visibleOut])
           else (this1\<lparr>textToolParserBuffer := data\<rparr>, False, emittedAny, out)))"

definition flushActiveTextToolCall :: "runtime \<Rightarrow> 'i provider \<Rightarrow> 'i provider \<times> part list" where
  "flushActiveTextToolCall rt this =
     (case textToolActive this of
        None \<Rightarrow> (this, [])
      | Some act \<Rightarrow>
          (case tryParseJSONObject rt (argBuffer act) of
             None \<Rightarrow> (this, [])
           | Some parsed \<Rightarrow>
               (case emitTextToolCallIfValid rt this act (argBuffer act) of
                  (did, this1, ps) \<Rightarrow> (this1\<lparr>textToolActive := None\<rparr>, ps))))"

section \<open>The tool-call reconstructor\<close>

text \<open>The identifier reported for a buffer: \<^verbatim>\<open>buf.id ?? `call_${...}`\<close>.\<close>

definition bufferCallId :: "ToolCallBuffer \<Rightarrow> call_id" where
  "bufferCallId buf = (case buf_id buf of None \<Rightarrow> RandomCallId | Some i \<Rightarrow> CallId i)"

definition tryEmitBufferedToolCall :: "runtime \<Rightarrow> 'i \<Rightarrow> 'i provider \<Rightarrow> 'i provider \<times> part list" where
  "tryEmitBufferedToolCall rt index this =
     (case map_of (toolCallBuffers this) index of
        None \<Rightarrow> (this, [])
      | Some buf \<Rightarrow>
          (case buf_name buf of
             None \<Rightarrow> (this, [])
           | Some name \<Rightarrow>
               if name = [] then (this, [])
               else
                 (case tryParseJSONObject rt (buf_args buf) of
                    None \<Rightarrow> (this, [])
                  | Some parameters \<Rightarrow>
                      (this\<lparr>emittedTextToolCallKeys :=
                               insert (name @ '':'' @ JSON_stringify rt parameters)
                                 (emittedTextToolCallKeys this),
                             toolCallBuffers := AList.delete index (toolCallBuffers this),
                             completedToolCallIndices := insert index (completedToolCallIndices this)\<rparr>,
                       [ToolCallPart (bufferCallId buf) name parameters]))))"

text \<open>
  The loop of \<^verbatim>\<open>flushToolCallBuffers\<close> over the entries the \<^verbatim>\<open>Map\<close> held when the
  flush began. The parts reported before an exception stay reported.
\<close>

fun flushEntries ::
  "runtime \<Rightarrow> bool \<Rightarrow> ('i \<times> ToolCallBuffer) list \<Rightarrow> 'i provider \<Rightarrow>
   'i provider \<times> part list \<times> error option" where
  "flushEntries rt throwOnInvalid [] this = (this, [], None)"
| "flushEntries rt throwOnInvalid ((idx, buf) # entries) this =
     (case tryParseJSONObject rt (buf_args buf) of
        None \<Rightarrow>
          if throwOnInvalid then (this, [], Some InvalidJSONForToolCall)
          else flushEntries rt throwOnInvalid entries this
      | Some parsed \<Rightarrow>
          (let name = (case buf_name buf of None \<Rightarrow> ''unknown_tool'' | Some n \<Rightarrow> n);
               this1 = this\<lparr>emittedTextToolCallKeys :=
                               insert (name @ '':'' @ JSON_stringify rt parsed)
                                 (emittedTextToolCallKeys this),
                             toolCallBuffers := AList.delete idx (toolCallBuffers this),
                             completedToolCallIndices := insert idx (completedToolCallIndices this)\<rparr>
           in case flushEntries rt throwOnInvalid entries this1 of
                (this2, ps, err) \<Rightarrow> (this2, ToolCallPart (bufferCallId buf) name parsed # ps, err)))"

definition flushToolCallBuffers ::
  "runtime \<Rightarrow> bool \<Rightarrow> 'i provider \<Rightarrow> 'i provider \<times> part list \<times> error option" where
  "flushToolCallBuffers rt throwOnInvalid this =
     (if toolCallBuffers this = [] then (this, [], None)
      else flushEntries rt throwOnInvalid (toolCallBuffers this) this)"

section \<open>The streaming loop\<close>

text \<open>The flush of both channels at \<^verbatim>\<open>done\<close> and at a stateful marker.\<close>

definition flushBoth :: "runtime \<Rightarrow> 'i provider \<Rightarrow> 'i provider \<times> part list \<times> error option" where
  "flushBoth rt this =
     (case flushToolCallBuffers rt False this of
        (this1, ps1, Some err) \<Rightarrow> (this1, ps1, Some err)
      | (this1, ps1, None) \<Rightarrow>
          (case flushActiveTextToolCall rt this1 of
             (this2, ps2) \<Rightarrow> (this2, ps1 @ ps2, None)))"

text \<open>\<^verbatim>\<open>this._toolCallBuffers.get(index) ?? { args: "" }\<close>.\<close>

definition bufferAt :: "'i provider \<Rightarrow> 'i \<Rightarrow> ToolCallBuffer" where
  "bufferAt this index =
     (case map_of (toolCallBuffers this) index of
        None \<Rightarrow> \<lparr>buf_id = None, buf_name = None, buf_args = []\<rparr>
      | Some b \<Rightarrow> b)"

text \<open>
  The three updates of the buffer by a tool-call event: an id and a name that are present
  and not empty replace the buffer's, arguments that are present and not empty are
  appended.
\<close>

definition mergeDelta ::
  "ToolCallBuffer \<Rightarrow> string option \<Rightarrow> string option \<Rightarrow> string option \<Rightarrow> ToolCallBuffer" where
  "mergeDelta buf ident name arguments =
     (let buf1 = (case ident of
                    Some i \<Rightarrow> if i \<noteq> [] then buf\<lparr>buf_id := Some i\<rparr> else buf
                  | None \<Rightarrow> buf);
          buf2 = (case name of
                    Some n \<Rightarrow> if n \<noteq> [] then buf1\<lparr>buf_name := Some n\<rparr> else buf1
                  | None \<Rightarrow> buf1)
      in case arguments of
           Some a \<Rightarrow> if a \<noteq> [] then buf2\<lparr>buf_args := buf_args buf2 @ a\<rparr> else buf2
         | None \<Rightarrow> buf2)"

text \<open>
  The body of the \<^verbatim>\<open>for\<close> loop of \<^verbatim>\<open>processStreamingResponse\<close> for one event: the
  provider afterwards, the parts reported while handling it, and the error thrown, if any.
\<close>

fun handleEvent ::
  "runtime \<Rightarrow> string \<Rightarrow> 'i provider \<Rightarrow> 'i StreamEvent \<Rightarrow> 'i provider \<times> part list \<times> error option" where
  "handleEvent rt modelId this EvSkip = (this, [], None)"
| "handleEvent rt modelId this EvDone = flushBoth rt this"
| "handleEvent rt modelId this (EvStatefulMarker marker) =
     (case flushBoth rt this of
        (this1, ps, err) \<Rightarrow> (this1, DataPart (modelId @ [CHR 0x5C] @ marker) ''stateful_marker'' # ps, err))"
| "handleEvent rt modelId this (EvText content) =
     (case processTextContent rt this content of
        (this1, emittedText, emittedAny, ps) \<Rightarrow>
          ((if emittedText then this1\<lparr>hasEmittedAssistantText := True\<rparr> else this1), ps, None))"
| "handleEvent rt modelId this (EvThinking text ident metadata) =
     (this, (if hostHasThinkingPart rt then [ThinkingPart text ident metadata] else []), None)"
| "handleEvent rt modelId this (EvToolCall index ident name arguments) =
     (let hint = (\<not> emittedBeginToolCallsHint this \<and> hasEmittedAssistantText this);
          this1 = (if hint then this\<lparr>emittedBeginToolCallsHint := True\<rparr> else this);
          hintParts = (if hint then [TextPart '' ''] else [])
      in if index \<in> completedToolCallIndices this1 then (this1, hintParts, None)
         else
           (let buf = mergeDelta (bufferAt this1 index) ident name arguments;
                this2 = this1\<lparr>toolCallBuffers := AList.update index buf (toolCallBuffers this1)\<rparr>
            in case tryEmitBufferedToolCall rt index this2 of
                 (this3, ps) \<Rightarrow> (this3, hintParts @ ps, None)))"
| "handleEvent rt modelId this (EvFinish reason) =
     (if reason = JStr ''tool_calls'' \<or> reason = JStr ''stop''
      then flushToolCallBuffers rt True this
      else (this, [], None))"

text \<open>
  The events of a stream in order. The result lists the parts reported per event; an
  error ends the loop.
\<close>

fun processEvents ::
  "runtime \<Rightarrow> string \<Rightarrow> 'i provider \<Rightarrow> 'i StreamEvent list \<Rightarrow>
   'i provider \<times> part list list \<times> error option" where
  "processEvents rt modelId this [] = (this, [], None)"
| "processEvents rt modelId this (ev # evs) =
     (case handleEvent rt modelId this ev of
        (this1, ps, Some err) \<Rightarrow> (this1, [ps], Some err)
      | (this1, ps, None) \<Rightarrow>
          (case processEvents rt modelId this1 evs of
             (this2, pss, err) \<Rightarrow> (this2, ps # pss, err)))"

text \<open>The \<^verbatim>\<open>finally\<close> block of \<^verbatim>\<open>processStreamingResponse\<close>.\<close>

definition streamCleanup :: "'i provider \<Rightarrow> 'i provider" where
  "streamCleanup this =
     this\<lparr>toolCallBuffers := [], completedToolCallIndices := {},
          hasEmittedAssistantText := False, emittedBeginToolCallsHint := False,
          textToolParserBuffer := [], textToolActive := None,
          emittedTextToolCallKeys := {}\<rparr>"

text \<open>
  \<^verbatim>\<open>processStreamingResponse\<close> on the events the adapter parsed from the lines that were
  read before the stream ended or the turn was cancelled: the loop, then the
  \<^verbatim>\<open>finally\<close> block, whether or not the loop threw.
\<close>

definition processStreamingResponse ::
  "runtime \<Rightarrow> string \<Rightarrow> 'i provider \<Rightarrow> 'i StreamEvent list \<Rightarrow>
   'i provider \<times> part list list \<times> error option" where
  "processStreamingResponse rt modelId this events =
     (case processEvents rt modelId this events of
        (this1, pss, err) \<Rightarrow> (streamCleanup this1, pss, err))"

text \<open>The resets at the start of \<^verbatim>\<open>provideLanguageModelChatResponse\<close>.\<close>

definition turnReset :: "'i provider \<Rightarrow> 'i provider" where
  "turnReset this =
     this\<lparr>toolCallBuffers := [], completedToolCallIndices := {},
          hasEmittedAssistantText := False, emittedBeginToolCallsHint := False,
          textToolParserBuffer := [], textToolActive := None,
          emittedTextToolCallKeys := {}, emittedTextToolCallIds := {}\<rparr>"

text \<open>The provider as its constructor leaves it.\<close>

definition newProvider :: "'i provider" where
  "newProvider =
     \<lparr>toolCallBuffers = [], completedToolCallIndices = {},
      hasEmittedAssistantText = False, emittedBeginToolCallsHint = False,
      textToolParserBuffer = [], textToolActive = None,
      emittedTextToolCallKeys = {}, emittedTextToolCallIds = {}\<rparr>"

section \<open>Request builders: the endpoint\<close>

text \<open>\<^verbatim>\<open>endpoint.replace(/\/$/, "")\<close>: one trailing slash is removed.\<close>

definition removeTrailingSlash :: "string \<Rightarrow> string" where
  "removeTrailingSlash s = (if endsWith s ''/'' then butlast s else s)"

text \<open>
  The endpoint computed by \<^verbatim>\<open>ChatCompletionsAdapter.buildRequest\<close> from
  \<^verbatim>\<open>config.baseUrl\<close>.
\<close>

definition ChatCompletionsAdapter_endpoint :: "string \<Rightarrow> string" where
  "ChatCompletionsAdapter_endpoint baseUrl =
     (if \<not> endsWith baseUrl ''/chat/completions'' then
        (let endpoint = removeTrailingSlash baseUrl in
           if endsWith endpoint ''/v1'' then endpoint @ ''/chat/completions''
           else if \<not> includes_str endpoint ''/v1'' then endpoint @ ''/v1/chat/completions''
           else endpoint @ ''/chat/completions'')
      else baseUrl)"

text \<open>
  The endpoint computed by \<^verbatim>\<open>ResponsesAdapter.buildRequest\<close> from
  \<^verbatim>\<open>config.baseUrl\<close>.
\<close>

definition ResponsesAdapter_endpoint :: "string \<Rightarrow> string" where
  "ResponsesAdapter_endpoint baseUrl =
     (if \<not> endsWith baseUrl ''/responses'' then
        (let endpoint = removeTrailingSlash baseUrl in
           if endsWith endpoint ''/v1'' then endpoint @ ''/responses''
           else if \<not> includes_str endpoint ''/v1'' then endpoint @ ''/v1/responses''
           else endpoint @ ''/responses'')
      else baseUrl)"

section \<open>A runtime to evaluate with\<close>

text \<open>
  A parser and a printer for JSON texts, so that the model runs on concrete lines. The
  parser reads the JSON grammar with integer numbers and the two-character escapes; it
  rejects fractions, exponents and \<^verbatim>\<open>\u\<close> escapes, and it keeps every member of an
  object with a repeated key where \<^verbatim>\<open>JSON.parse\<close> keeps the last; the examples use none
  of these. Its first argument bounds the depth of the recursion.
\<close>

definition isJsonSpace :: "char \<Rightarrow> bool" where
  "isJsonSpace c = (c = CHR 0x20 \<or> c = CHR 0x09 \<or> c = CHR 0x0A \<or> c = CHR 0x0D)"

definition skipWs :: "string \<Rightarrow> string" where
  "skipWs s = dropWhile isJsonSpace s"

definition unescape :: "char \<Rightarrow> char option" where
  "unescape e =
     (if e = CHR 0x22 then Some (CHR 0x22)
      else if e = CHR 0x5C then Some (CHR 0x5C)
      else if e = CHR ''/'' then Some (CHR ''/'')
      else if e = CHR ''b'' then Some (CHR 0x08)
      else if e = CHR ''f'' then Some (CHR 0x0C)
      else if e = CHR ''n'' then Some (CHR 0x0A)
      else if e = CHR ''r'' then Some (CHR 0x0D)
      else if e = CHR ''t'' then Some (CHR 0x09)
      else None)"

text \<open>The characters of a string literal after its opening quote, and what follows it.\<close>

fun lexString :: "string \<Rightarrow> (string \<times> string) option" where
  "lexString [] = None"
| "lexString (c # cs) =
     (if c = CHR 0x22 then Some ([], cs)
      else if c = CHR 0x5C then
        (case cs of
           [] \<Rightarrow> None
         | e # cs' \<Rightarrow>
             (case unescape e of
                None \<Rightarrow> None
              | Some d \<Rightarrow> map_option (\<lambda>(s, r). (d # s, r)) (lexString cs')))
      else if of_char c < (0x20 :: nat) then None
      else map_option (\<lambda>(s, r). (c # s, r)) (lexString cs))"

definition lexNumber :: "string \<Rightarrow> (int \<times> string) option" where
  "lexNumber s =
     (let neg = prefix ''-'' s;
          t = (if neg then tl s else s);
          ds = takeWhile isDigit t;
          r = dropWhile isDigit t
      in if ds = [] \<or> (prefix ''0'' ds \<and> tl ds \<noteq> []) then None
         else if prefix ''.'' r \<or> prefix ''e'' r \<or> prefix ''E'' r then None
         else Some (if neg then - int (digitsValue ds) else int (digitsValue ds), r))"

fun parseValue :: "nat \<Rightarrow> string \<Rightarrow> (json \<times> string) option"
  and parseElements :: "nat \<Rightarrow> string \<Rightarrow> (json list \<times> string) option"
  and parseMembers :: "nat \<Rightarrow> string \<Rightarrow> ((string \<times> json) list \<times> string) option"
where
  "parseValue 0 s = None"
| "parseValue (Suc n) s =
     (if prefix ''null'' s then Some (JNull, drop 4 s)
      else if prefix ''true'' s then Some (JBool True, drop 4 s)
      else if prefix ''false'' s then Some (JBool False, drop 5 s)
      else if prefix [CHR 0x22] s then map_option (\<lambda>(t, r). (JStr t, r)) (lexString (tl s))
      else if prefix ''['' s then
        (if prefix '']'' (skipWs (tl s)) then Some (JArr [], tl (skipWs (tl s)))
         else map_option (\<lambda>(vs, r). (JArr vs, r)) (parseElements n (skipWs (tl s))))
      else if prefix ''{'' s then
        (if prefix ''}'' (skipWs (tl s)) then Some (JObj [], tl (skipWs (tl s)))
         else map_option (\<lambda>(ms, r). (JObj ms, r)) (parseMembers n (skipWs (tl s))))
      else map_option (\<lambda>(i, r). (JNum i, r)) (lexNumber s))"
| "parseElements 0 s = None"
| "parseElements (Suc n) s =
     (case parseValue n s of
        None \<Rightarrow> None
      | Some (v, r) \<Rightarrow>
          (if prefix '','' (skipWs r) then
             map_option (\<lambda>(vs, r'). (v # vs, r')) (parseElements n (skipWs (tl (skipWs r))))
           else if prefix '']'' (skipWs r) then Some ([v], tl (skipWs r))
           else None))"
| "parseMembers 0 s = None"
| "parseMembers (Suc n) s =
     (if \<not> prefix [CHR 0x22] s then None
      else
        (case lexString (tl s) of
           None \<Rightarrow> None
         | Some (k, r) \<Rightarrow>
             (if \<not> prefix '':'' (skipWs r) then None
              else
                (case parseValue n (skipWs (tl (skipWs r))) of
                   None \<Rightarrow> None
                 | Some (v, r') \<Rightarrow>
                     (if prefix '','' (skipWs r') then
                        map_option (\<lambda>(ms, r''). ((k, v) # ms, r''))
                          (parseMembers n (skipWs (tl (skipWs r'))))
                      else if prefix ''}'' (skipWs r') then Some ([(k, v)], tl (skipWs r'))
                      else None)))))"

definition parseJSON :: "string \<Rightarrow> json option" where
  "parseJSON s =
     (case parseValue (Suc (length s)) (skipWs s) of
        None \<Rightarrow> None
      | Some (v, r) \<Rightarrow> if skipWs r = [] then Some v else None)"

text \<open>
  The compact text of a value, members in the order held (the order of
  \<^verbatim>\<open>JSON.stringify\<close> for an object whose keys are distinct and not array indices).
\<close>

definition hexDigit :: "nat \<Rightarrow> char" where
  "hexDigit n = (if n < 10 then char_of (48 + n) else char_of (87 + n))"

definition escapeChar :: "char \<Rightarrow> string" where
  "escapeChar c =
     (if c = CHR 0x22 then [CHR 0x5C, CHR 0x22]
      else if c = CHR 0x5C then [CHR 0x5C, CHR 0x5C]
      else if c = CHR 0x08 then [CHR 0x5C, CHR ''b'']
      else if c = CHR 0x0C then [CHR 0x5C, CHR ''f'']
      else if c = CHR 0x0A then [CHR 0x5C, CHR ''n'']
      else if c = CHR 0x0D then [CHR 0x5C, CHR ''r'']
      else if c = CHR 0x09 then [CHR 0x5C, CHR ''t'']
      else if of_char c < (0x20 :: nat) then
        [CHR 0x5C, CHR ''u'', CHR ''0'', CHR ''0'',
         hexDigit (of_char c div 16), hexDigit (of_char c mod 16)]
      else [c])"

definition quoteString :: "string \<Rightarrow> string" where
  "quoteString s = [CHR 0x22] @ concat (map escapeChar s) @ [CHR 0x22]"

fun stringifyJSON :: "json \<Rightarrow> string" where
  "stringifyJSON JNull = ''null''"
| "stringifyJSON (JBool b) = (if b then ''true'' else ''false'')"
| "stringifyJSON (JNum n) = showInt n"
| "stringifyJSON (JStr s) = quoteString s"
| "stringifyJSON (JArr xs) = ''['' @ joinWith '','' (map stringifyJSON xs) @ '']''"
| "stringifyJSON (JObj ms) =
     ''{'' @ joinWith '','' (map (\<lambda>m. quoteString (fst m) @ '':'' @ stringifyJSON (snd m)) ms) @ ''}''"

text \<open>
  \<^verbatim>\<open>v > 0\<close> for a number, a boolean and \<^verbatim>\<open>null\<close>; a value of another kind is taken
  not to be greater (JavaScript converts a string to a number first; the examples compare
  the length of an array only).
\<close>

fun numberGreaterThanZero :: "json \<Rightarrow> bool" where
  "numberGreaterThanZero (JNum n) = (0 < n)"
| "numberGreaterThanZero (JBool b) = b"
| "numberGreaterThanZero v = False"

text \<open>
  The runtime of the examples: the parser and the printer above, a decoder that is the
  identity (the examples are ASCII), and a host with a thinking part.
\<close>

definition exampleRuntime :: runtime where
  "exampleRuntime =
     \<lparr>JSON_parse = parseJSON, JSON_stringify = stringifyJSON,
      greaterThanZero = numberGreaterThanZero, TextDecoder_decode = (\<lambda>bytes. bytes),
      hostHasThinkingPart = True\<rparr>"

section \<open>Sequences of tool-call deltas\<close>

text \<open>
  The id, the name and the argument fragment of one tool-call delta, and the event that
  carries them to an index.
\<close>

type_synonym delta = "string option \<times> string option \<times> string option"

definition deltaEvent :: "'i \<Rightarrow> delta \<Rightarrow> 'i StreamEvent" where
  "deltaEvent index d = (case d of (ident, name, arguments) \<Rightarrow> EvToolCall index ident name arguments)"

text \<open>
  What a sequence of deltas has accumulated, in the words of the specification: the last
  id and the last name that are present and not empty, and the argument fragments
  concatenated.
\<close>

definition lastNonEmpty :: "string option list \<Rightarrow> string option" where
  "lastNonEmpty xs =
     (case List.find (\<lambda>x. x \<noteq> None \<and> x \<noteq> Some []) (rev xs) of None \<Rightarrow> None | Some y \<Rightarrow> y)"

definition accumulatedId :: "delta list \<Rightarrow> string option" where
  "accumulatedId ds = lastNonEmpty (map fst ds)"

definition accumulatedName :: "delta list \<Rightarrow> string option" where
  "accumulatedName ds = lastNonEmpty (map (\<lambda>d. fst (snd d)) ds)"

definition accumulatedArguments :: "delta list \<Rightarrow> string" where
  "accumulatedArguments ds = concat (map (\<lambda>d. case snd (snd d) of None \<Rightarrow> [] | Some a \<Rightarrow> a) ds)"

text \<open>
  A sequence is complete when it has given a name and its fragments parse as a JSON
  object; its call is then the one below (no call otherwise).
\<close>

definition bufferComplete :: "runtime \<Rightarrow> delta list \<Rightarrow> bool" where
  "bufferComplete rt ds \<longleftrightarrow>
     accumulatedName ds \<noteq> None \<and> tryParseJSONObject rt (accumulatedArguments ds) \<noteq> None"

definition completeCall :: "runtime \<Rightarrow> delta list \<Rightarrow> part list" where
  "completeCall rt ds =
     (case accumulatedName ds of
        None \<Rightarrow> []
      | Some n \<Rightarrow>
          (case tryParseJSONObject rt (accumulatedArguments ds) of
             None \<Rightarrow> []
           | Some v \<Rightarrow>
               [ToolCallPart (case accumulatedId ds of None \<Rightarrow> RandomCallId | Some i \<Rightarrow> CallId i) n v]))"

text \<open>The tool calls among reported parts, of one event and of all events of a run.\<close>

fun isToolCall :: "part \<Rightarrow> bool" where
  "isToolCall (ToolCallPart c n v) = True"
| "isToolCall p = False"

definition toolCallsOf :: "part list \<Rightarrow> part list" where
  "toolCallsOf ps = filter isToolCall ps"

definition callsIn :: "part list list \<Rightarrow> part list" where
  "callsIn pss = concat (map toolCallsOf pss)"


text \<open>
  For the proofs: the call a buffer is ready to give, as \<^verbatim>\<open>tryEmitBufferedToolCall\<close>
  tests it, and a buffer after a sequence of deltas.
\<close>

definition readyCall :: "runtime \<Rightarrow> ToolCallBuffer \<Rightarrow> part list" where
  "readyCall rt buf =
     (case buf_name buf of
        None \<Rightarrow> []
      | Some n \<Rightarrow>
          if n = [] then []
          else (case tryParseJSONObject rt (buf_args buf) of
                  None \<Rightarrow> []
                | Some v \<Rightarrow> [ToolCallPart (bufferCallId buf) n v]))"

definition mergeDeltas :: "ToolCallBuffer \<Rightarrow> delta list \<Rightarrow> ToolCallBuffer" where
  "mergeDeltas b ds = foldl (\<lambda>b d. mergeDelta b (fst d) (fst (snd d)) (snd (snd d))) b ds"

text \<open>The arguments \<^verbatim>\<open>{"a":1}\<close> of a call \<open>f\<close>, arriving in three fragments.\<close>

definition threeFragments :: "delta list" where
  \<open>threeFragments =
     [(Some ''call_1'', Some ''f'', Some ''{"a''), (None, None, Some ''":1''), (None, None, Some ''}'')]\<close>

text \<open>
  The tool calls of the delta channel among reported parts: those whose id is upstream's
  or a random \<^verbatim>\<open>call_...\<close>; the inline channel reports \<^verbatim>\<open>tct_...\<close> ids only.
\<close>

definition isDeltaCall :: "part \<Rightarrow> bool" where
  "isDeltaCall p = (case p of ToolCallPart c n v \<Rightarrow> c \<noteq> RandomTctId | _ \<Rightarrow> False)"

text \<open>
  What a flush reports for one entry of the buffer map when it does not throw: the call, if
  the entry's arguments parse as a JSON object, and nothing otherwise.
\<close>

definition flushedCall :: "runtime \<Rightarrow> 'i \<times> ToolCallBuffer \<Rightarrow> part list" where
  "flushedCall rt entry =
     (case tryParseJSONObject rt (buf_args (snd entry)) of
        None \<Rightarrow> []
      | Some parsed \<Rightarrow>
          [ToolCallPart (bufferCallId (snd entry))
             (case buf_name (snd entry) of None \<Rightarrow> ''unknown_tool'' | Some n \<Rightarrow> n) parsed])"

text \<open>
  A provider at the end of a generation: the buffer of index 0 holds arguments cut short,
  the buffer of index 2 holds complete arguments and no name.
\<close>

definition pendingProvider :: "int provider" where
  "pendingProvider =
     newProvider\<lparr>toolCallBuffers :=
       [(0, \<lparr>buf_id = Some ''c1'', buf_name = Some ''f'', buf_args = ''{''\<rparr>),
        (2, \<lparr>buf_id = Some ''c2'', buf_name = None, buf_args = ''{}''\<rparr>)]\<rparr>"

text \<open>
  What the loop of \<^verbatim>\<open>processTextContent\<close> keeps, for the proofs: it leaves no data, it
  only adds to the emitted keys, it leaves the buffer map and the completed indices alone,
  and it reports no call of the delta channel.
\<close>

definition loopInv :: "'i provider \<Rightarrow> part list \<Rightarrow> 'i provider \<times> string \<times> string \<times> bool \<times> part list \<Rightarrow> bool" where
  "loopInv this out r =
     (case r of (this', data', vis', ea', out') \<Rightarrow>
        data' = []
        \<and> emittedTextToolCallKeys this \<subseteq> emittedTextToolCallKeys this'
        \<and> toolCallBuffers this' = toolCallBuffers this
        \<and> completedToolCallIndices this' = completedToolCallIndices this
        \<and> ((\<forall>p \<in> set out. \<not> isDeltaCall p) \<longrightarrow> (\<forall>p \<in> set out'. \<not> isDeltaCall p)))"

text \<open>
  The key \<^verbatim>\<open>`${name}:${canonical}`\<close> of a reported tool call, and the relation between
  the provider before and after some handling that reported the parts \<open>ps\<close>: the emitted
  keys only grew, and they hold the key of every call of the delta channel among \<open>ps\<close>.
\<close>

definition callKey :: "runtime \<Rightarrow> part \<Rightarrow> string" where
  "callKey rt p = (case p of ToolCallPart c n v \<Rightarrow> n @ '':'' @ JSON_stringify rt v | _ \<Rightarrow> [])"

definition keysRecorded :: "runtime \<Rightarrow> 'i provider \<Rightarrow> part list \<Rightarrow> 'i provider \<Rightarrow> bool" where
  "keysRecorded rt this ps this' \<longleftrightarrow>
     emittedTextToolCallKeys this \<subseteq> emittedTextToolCallKeys this'
     \<and> (\<forall>p \<in> set ps. isDeltaCall p \<longrightarrow> callKey rt p \<in> emittedTextToolCallKeys this')"

text \<open>
  A call \<open>foo\<close> with arguments \<^verbatim>\<open>{"x":1}\<close> on the delta channel, the same call written
  inline with other spacing, and an inline call that carries an index.
\<close>

definition deltaFoo :: "int StreamEvent" where
  \<open>deltaFoo = EvToolCall 0 (Some ''call_1'') (Some ''foo'') (Some ''{"x":1}'')\<close>

definition inlineFoo :: string where
  \<open>inlineFoo = ''<|tool_call_begin|>foo<|tool_call_argument_begin|>{ "x" : 1 }<|tool_call_end|>''\<close>

definition indexedInlineCall :: string where
  "indexedInlineCall = ''<|tool_call_begin|>foo:1<|tool_call_argument_begin|>{}<|tool_call_end|>''"

section \<open>Lines of a stream\<close>

text \<open>
  The events of the lines of a stream, as the loop of \<^verbatim>\<open>processStreamingResponse\<close> gets
  them: one call of \<^verbatim>\<open>parseStreamEvent\<close> for each line, the items-protocol adapter
  keeping its fields from line to line.
\<close>

definition ChatCompletionsAdapter_parseLines :: "runtime \<Rightarrow> string list \<Rightarrow> json StreamEvent list" where
  "ChatCompletionsAdapter_parseLines rt lines = map (ChatCompletionsAdapter_parseStreamEvent rt) lines"

fun ResponsesAdapter_parseLines ::
  "runtime \<Rightarrow> (ResponsesAdapter \<Rightarrow> json \<Rightarrow> ResponsesAdapter \<times> json StreamEvent option) \<Rightarrow>
   ResponsesAdapter \<Rightarrow> string list \<Rightarrow> ResponsesAdapter \<times> json StreamEvent list" where
  "ResponsesAdapter_parseLines rt dispatch this [] = (this, [])"
| "ResponsesAdapter_parseLines rt dispatch this (line # lines) =
     (case ResponsesAdapter_parseStreamEvent rt dispatch this line of
        (this1, ev) \<Rightarrow>
          (case ResponsesAdapter_parseLines rt dispatch this1 lines of
             (this2, evs) \<Rightarrow> (this2, ev # evs)))"

text \<open>The items-protocol adapter as its constructor leaves it.\<close>

definition newResponsesAdapter :: ResponsesAdapter where
  "newResponsesAdapter =
     \<lparr>toolCallIndexById = [], nextToolCallIndex = 0, sawOutputTextDelta = False,
      lastSseEventType = None, emittedTextItemKeys = {}\<rparr>"

text \<open>A dispatch for the examples, whose lines do not reach it.\<close>

definition noDispatch :: "ResponsesAdapter \<Rightarrow> json \<Rightarrow> ResponsesAdapter \<times> json StreamEvent option" where
  "noDispatch this parsed = (this, Some EvSkip)"

text \<open>A chat-protocol line whose delta carries two tool calls.\<close>

definition twoCallsLine :: string where
  \<open>twoCallsLine = ''data: {"choices":[{"delta":{"tool_calls":[{"index":0,"id":"call_1","function":{"name":"f","arguments":"{}"}},{"index":1,"id":"call_2","function":{"name":"g","arguments":"{}"}}]}}]}''\<close>

section \<open>The items-protocol request builder\<close>

text \<open>
  The conversation as the host gives it. A message has a role (any role that is neither
  user nor assistant is treated as system) and parts: text, data with a mime type (images,
  and the continuation marker, whose mime type is \<^verbatim>\<open>stateful_marker\<close>), a tool call
  (call id, name, input), a tool result (call id, content), or something else.
\<close>

datatype role = User | Assistant | System

datatype result_content =
    ResultText string
  | ResultData string string
  | ResultString string
  | ResultOther json

datatype message_part =
    MsgText string
  | MsgData string string
  | MsgToolCall string string "json option"
  | MsgToolResult string "result_content list"
  | MsgOther

record message =
  msg_role :: role
  msg_content :: "message_part list"

text \<open>The fields of \<^verbatim>\<open>OpenAICustomModelConfig\<close> that the builder's items depend on.\<close>

record config =
  model_id :: string
  baseUrl :: string
  supportsStatefulResponses :: "bool option"
  supportsSystemRole :: "bool option"
  instructions :: "string option"

text \<open>The items of a request, and the part of a request that is modelled.\<close>

datatype content_item = InputText string | OutputText string | InputImage string

datatype item_role = RoleSystem | RoleUser | RoleAssistant

datatype item_call_id = GivenCallId string | GeneratedCallId

datatype item =
    MessageItem item_role "content_item list"
  | FunctionCallItem item_call_id string string
  | FunctionCallOutputItem string string

record WireRequest =
  req_endpoint :: string
  req_input :: "item list"
  req_previous_response_id :: "string option"

text \<open>
  The body of the inner loop of \<^verbatim>\<open>extractPreviousResponseId\<close> for one part: the response
  id the part gives for the model, or \<open>None\<close> where the loop goes on to the next part.
\<close>

definition markerOfPart :: "runtime \<Rightarrow> string \<Rightarrow> message_part \<Rightarrow> string option" where
  "markerOfPart rt modelId part =
     (case part of
        MsgData mimeType bytes \<Rightarrow>
          if mimeType = ''stateful_marker'' then
            (let raw = TextDecoder_decode rt bytes in
               case indexOf raw [CHR 0x5C] of
                 None \<Rightarrow> None
               | Some sep \<Rightarrow>
                   if sep \<le> 0 then None
                   else
                     (let mid = take sep raw; marker = drop (sep + 1) raw
                      in if mid = [] \<or> marker = [] then None
                         else if mid \<noteq> modelId then None
                         else Some marker))
          else None
      | _ \<Rightarrow> None)"

text \<open>
  The two loops of \<^verbatim>\<open>extractPreviousResponseId\<close>, over the parts of message \<open>i\<close> and
  over the messages from \<open>i\<close> on; \<open>lastFound\<close> is the variable \<^verbatim>\<open>last\<close>.
\<close>

fun scanParts ::
  "runtime \<Rightarrow> string \<Rightarrow> nat \<Rightarrow> (string \<times> nat) option \<Rightarrow> message_part list \<Rightarrow> (string \<times> nat) option" where
  "scanParts rt modelId i lastFound [] = lastFound"
| "scanParts rt modelId i lastFound (part # parts) =
     scanParts rt modelId i
       (case markerOfPart rt modelId part of None \<Rightarrow> lastFound | Some marker \<Rightarrow> Some (marker, i + 1))
       parts"

fun scanMessages ::
  "runtime \<Rightarrow> string \<Rightarrow> nat \<Rightarrow> (string \<times> nat) option \<Rightarrow> message list \<Rightarrow> (string \<times> nat) option" where
  "scanMessages rt modelId i lastFound [] = lastFound"
| "scanMessages rt modelId i lastFound (msg # msgs) =
     scanMessages rt modelId (i + 1) (scanParts rt modelId i lastFound (msg_content msg)) msgs"

definition extractPreviousResponseId ::
  "runtime \<Rightarrow> message list \<Rightarrow> string \<Rightarrow> (string \<times> nat) option" where
  "extractPreviousResponseId rt messages modelId = scanMessages rt modelId 0 None messages"

text \<open>\<^verbatim>\<open>Buffer.from(data).toString("base64")\<close>.\<close>

definition base64Digit :: "nat \<Rightarrow> char" where
  "base64Digit n =
     ''ABCDEFGHIJKLMNOPQRSTUVWXYZabcdefghijklmnopqrstuvwxyz0123456789+/'' ! n"

fun base64 :: "string \<Rightarrow> string" where
  "base64 [] = []"
| "base64 [a] =
     (let n = of_char a * 16
      in [base64Digit (n div 64), base64Digit (n mod 64), CHR ''='', CHR ''=''])"
| "base64 [a, b] =
     (let n = (of_char a * 256 + of_char b) * 4
      in [base64Digit (n div 4096), base64Digit (n div 64 mod 64), base64Digit (n mod 64), CHR ''=''])"
| "base64 (a # b # c # rest) =
     (let n = of_char a * 65536 + of_char b * 256 + of_char c
      in [base64Digit (n div 262144), base64Digit (n div 4096 mod 64),
          base64Digit (n div 64 mod 64), base64Digit (n mod 64)] @ base64 rest)"

definition tryDataPartToDataUrl :: "string \<Rightarrow> string \<Rightarrow> string option" where
  "tryDataPartToDataUrl mimeType bytes =
     (if \<not> startsWith mimeType ''image/'' then None
      else Some (''data:'' @ mimeType @ '';base64,'' @ base64 bytes))"

fun collectToolResultTextAndImages :: "runtime \<Rightarrow> result_content list \<Rightarrow> string \<times> string list" where
  "collectToolResultTextAndImages rt [] = ([], [])"
| "collectToolResultTextAndImages rt (c # cs) =
     (case collectToolResultTextAndImages rt cs of
        (txt, imageUrls) \<Rightarrow>
          (case c of
             ResultText v \<Rightarrow> (v @ txt, imageUrls)
           | ResultData mimeType bytes \<Rightarrow>
               (case tryDataPartToDataUrl mimeType bytes of
                  None \<Rightarrow> (txt, imageUrls)
                | Some url \<Rightarrow> (txt, url # imageUrls))
           | ResultString s \<Rightarrow> (s @ txt, imageUrls)
           | ResultOther j \<Rightarrow> (JSON_stringify rt j @ txt, imageUrls)))"

text \<open>
  The variables of \<^verbatim>\<open>convertMessagesToItems\<close> for one message, and the body of its loop
  over the parts.
\<close>

record part_scan =
  pendingText :: string
  contentItems :: "content_item list"
  toolCalls :: "item list"
  toolResults :: "item list"

definition scanPart :: "runtime \<Rightarrow> role \<Rightarrow> part_scan \<Rightarrow> message_part \<Rightarrow> part_scan" where
  "scanPart rt r acc part =
     (case part of
        MsgText v \<Rightarrow> acc\<lparr>pendingText := pendingText acc @ v\<rparr>
      | MsgData mimeType bytes \<Rightarrow>
          if mimeType = ''stateful_marker'' then acc
          else
            (case tryDataPartToDataUrl mimeType bytes of
               None \<Rightarrow> acc
             | Some url \<Rightarrow>
                 if r = Assistant then acc
                 else
                   (let acc1 = (if pendingText acc \<noteq> []
                                then acc\<lparr>contentItems := contentItems acc @ [InputText (pendingText acc)],
                                         pendingText := []\<rparr>
                                else acc)
                    in acc1\<lparr>contentItems := contentItems acc1 @ [InputImage url]\<rparr>))
      | MsgToolCall callId name inp \<Rightarrow>
          acc\<lparr>toolCalls := toolCalls acc @
                 [FunctionCallItem (if callId \<noteq> [] then GivenCallId callId else GeneratedCallId) name
                    (JSON_stringify rt (case inp of None \<Rightarrow> JObj [] | Some v \<Rightarrow> v))]\<rparr>
      | MsgToolResult callId cs \<Rightarrow>
          (case collectToolResultTextAndImages rt cs of
             (txt, imageUrls) \<Rightarrow>
               acc\<lparr>toolResults := toolResults acc @ [FunctionCallOutputItem callId txt] @
                      map (\<lambda>url. MessageItem RoleUser
                                    [InputText ''Image associated with tool output.'', InputImage url])
                        imageUrls\<rparr>)
      | MsgOther \<Rightarrow> acc)"

text \<open>
  The items of one message. An assistant message never holds an image item, so the
  normalisation to \<^verbatim>\<open>output_text\<close> meets text items only.
\<close>

definition messageItems :: "runtime \<Rightarrow> bool \<Rightarrow> message \<Rightarrow> item list" where
  "messageItems rt supportsSystem msg =
     (let acc = foldl (scanPart rt (msg_role msg))
                  \<lparr>pendingText = [], contentItems = [], toolCalls = [], toolResults = []\<rparr>
                  (msg_content msg);
          role0 = (case msg_role msg of Assistant \<Rightarrow> RoleAssistant | User \<Rightarrow> RoleUser
                   | System \<Rightarrow> RoleSystem);
          downgrade = (role0 = RoleSystem \<and> \<not> supportsSystem);
          r = (if downgrade then RoleUser else role0);
          items1 = (if pendingText acc \<noteq> [] then
                      contentItems acc @
                        [(if r = RoleAssistant then OutputText else InputText)
                           ((if downgrade then ''[System]: '' else []) @ pendingText acc)]
                    else contentItems acc);
          needsSystemPrefix = (downgrade \<and> pendingText acc = []);
          items2 = (if needsSystemPrefix then InputText ''[System]:'' # items1 else items1);
          normalized = (if r = RoleAssistant then
                          map (\<lambda>c. case c of OutputText t \<Rightarrow> OutputText t
                                     | InputText t \<Rightarrow> OutputText t
                                     | InputImage u \<Rightarrow> OutputText []) items2
                        else items2)
      in (if items1 \<noteq> [] then [MessageItem r normalized] else [])
         @ toolCalls acc @ toolResults acc)"

definition convertMessagesToItems :: "runtime \<Rightarrow> config \<Rightarrow> message list \<Rightarrow> item list" where
  "convertMessagesToItems rt cfg messages =
     (let supportsSystem = (supportsSystemRole cfg \<noteq> Some False);
          raw = (case instructions cfg of None \<Rightarrow> [] | Some s \<Rightarrow> trim s)
      in (if raw \<noteq> [] then
            [MessageItem (if supportsSystem then RoleSystem else RoleUser)
               [InputText (if supportsSystem then raw else ''[System]: '' @ raw)]]
          else [])
         @ concat (map (messageItems rt supportsSystem) messages))"

text \<open>
  \<^verbatim>\<open>ResponsesAdapter.buildRequest\<close>: the endpoint, the items (\<^verbatim>\<open>body.input\<close>) and
  \<^verbatim>\<open>body.previous_response_id\<close>. The other fields of the body do not depend on the
  messages.
\<close>

definition ResponsesAdapter_buildRequest :: "runtime \<Rightarrow> config \<Rightarrow> message list \<Rightarrow> WireRequest" where
  "ResponsesAdapter_buildRequest rt cfg messages =
     (let supportsStateful = (supportsStatefulResponses cfg \<noteq> Some False);
          stateful = (if supportsStateful then extractPreviousResponseId rt messages (model_id cfg)
                      else None);
          effectiveMessages = (case stateful of
                                 Some (rid, sliceFromMessageIndex) \<Rightarrow> drop sliceFromMessageIndex messages
                               | None \<Rightarrow> messages)
      in \<lparr>req_endpoint = ResponsesAdapter_endpoint (baseUrl cfg),
          req_input = convertMessagesToItems rt cfg effectiveMessages,
          req_previous_response_id =
            (case stateful of
               Some (rid, sliceFromMessageIndex) \<Rightarrow>
                 if supportsStateful \<and> rid \<noteq> [] then Some rid else None
             | None \<Rightarrow> None)\<rparr>)"

text \<open>
  The scenario of the adapter tests: three messages, the second one carrying a marker for
  the given model id.
\<close>

definition testConfig :: config where
  "testConfig =
     \<lparr>model_id = ''test-model'', baseUrl = ''https://api.example.com/v1'',
      supportsStatefulResponses = None, supportsSystemRole = None, instructions = None\<rparr>"

definition threeMessages :: "string \<Rightarrow> message list" where
  "threeMessages markerModel =
     [\<lparr>msg_role = User, msg_content = [MsgText ''OLD'']\<rparr>,
      \<lparr>msg_role = Assistant,
       msg_content = [MsgData ''stateful_marker'' (markerModel @ [CHR 0x5C] @ ''resp_123'')]\<rparr>,
      \<lparr>msg_role = User, msg_content = [MsgText ''NEW'']\<rparr>]"

section \<open>Properties of the request builders\<close>

text \<open>
  Claim C8. Whatever the configured base URL is (ending in the versioned prefix
  \<^verbatim>\<open>/v1\<close>, ending in the resource path already, or neither, with or without a trailing
  slash), the endpoint of the chat-protocol builder ends with \<^verbatim>\<open>/chat/completions\<close> and the
  endpoint of the items-protocol builder ends with \<^verbatim>\<open>/responses\<close>.
\<close>

theorem endpoint_ends_with_resource_path:
  "endsWith (ChatCompletionsAdapter_endpoint url) ''/chat/completions''
   \<and> endsWith (ResponsesAdapter_endpoint url) ''/responses''"
  unfolding ChatCompletionsAdapter_endpoint_def ResponsesAdapter_endpoint_def endsWith_def Let_def
  by (simp add: suffix_def)

section \<open>Properties of the tool-call reconstructor\<close>

lemma callsIn_Nil: "callsIn [] = []"
  by (simp add: callsIn_def)

lemma callsIn_Cons: "callsIn (ps # pss) = toolCallsOf ps @ callsIn pss"
  by (simp add: callsIn_def)


lemma callsIn_none: "\<forall>ps \<in> set pss. toolCallsOf ps = [] \<Longrightarrow> callsIn pss = []"
  by (simp add: callsIn_def)

lemma deltaEvent_simp: "deltaEvent index (i, n, a) = EvToolCall index i n a"
  by (simp add: deltaEvent_def)

lemma lastNonEmpty_snoc:
  "lastNonEmpty (xs @ [x]) = (if x \<noteq> None \<and> x \<noteq> Some [] then x else lastNonEmpty xs)"
  by (simp add: lastNonEmpty_def)

lemma lastNonEmpty_Nil: "lastNonEmpty [] = None"
  by (simp add: lastNonEmpty_def)

lemma lastNonEmpty_nonempty: "lastNonEmpty xs \<noteq> Some []"
proof (induction xs rule: rev_induct)
  case Nil
  then show ?case by (simp add: lastNonEmpty_Nil)
next
  case (snoc x xs)
  then show ?case by (simp add: lastNonEmpty_snoc)
qed

lemma mergeDeltas_empty:
  "mergeDeltas \<lparr>buf_id = None, buf_name = None, buf_args = []\<rparr> ds =
     \<lparr>buf_id = accumulatedId ds, buf_name = accumulatedName ds, buf_args = accumulatedArguments ds\<rparr>"
proof (induction ds rule: rev_induct)
  case Nil
  then show ?case
    by (simp add: mergeDeltas_def accumulatedId_def accumulatedName_def accumulatedArguments_def
        lastNonEmpty_Nil)
next
  case (snoc d ds)
  obtain i n a where d: "d = (i, n, a)" by (cases d)
  have "mergeDeltas \<lparr>buf_id = None, buf_name = None, buf_args = []\<rparr> (ds @ [d]) =
        mergeDelta (mergeDeltas \<lparr>buf_id = None, buf_name = None, buf_args = []\<rparr> ds) i n a"
    by (simp add: mergeDeltas_def d)
  then show ?case
    unfolding snoc.IH
    by (auto simp: d mergeDelta_def accumulatedId_def accumulatedName_def accumulatedArguments_def
        lastNonEmpty_snoc Let_def split: option.splits)
qed

lemma readyCall_accumulated:
  "readyCall rt (mergeDeltas \<lparr>buf_id = None, buf_name = None, buf_args = []\<rparr> ds) = completeCall rt ds"
  using lastNonEmpty_nonempty[of "map (\<lambda>d. fst (snd d)) ds"]
  by (auto simp: mergeDeltas_empty readyCall_def completeCall_def bufferCallId_def accumulatedName_def
      split: option.splits)

lemma handle_delta_completed:
  assumes "index \<in> completedToolCallIndices this"
  shows "\<exists>this' ps. handleEvent rt m this (EvToolCall index i n a) = (this', ps, None)
      \<and> toolCallsOf ps = []
      \<and> toolCallBuffers this' = toolCallBuffers this
      \<and> completedToolCallIndices this' = completedToolCallIndices this
      \<and> emittedTextToolCallKeys this' = emittedTextToolCallKeys this"
  using assms by (simp add: Let_def toolCallsOf_def)

lemma handle_delta_open:
  assumes "index \<notin> completedToolCallIndices this"
  shows "\<exists>this' ps. handleEvent rt m this (EvToolCall index i n a) = (this', ps, None)
      \<and> toolCallsOf ps = readyCall rt (mergeDelta (bufferAt this index) i n a)
      \<and> (readyCall rt (mergeDelta (bufferAt this index) i n a) = [] \<longrightarrow>
           index \<notin> completedToolCallIndices this'
           \<and> bufferAt this' index = mergeDelta (bufferAt this index) i n a)
      \<and> (readyCall rt (mergeDelta (bufferAt this index) i n a) \<noteq> [] \<longrightarrow>
           index \<in> completedToolCallIndices this')"
  using assms
  by (auto simp: Let_def toolCallsOf_def tryEmitBufferedToolCall_def readyCall_def bufferAt_def
      update_conv' split: option.splits)

lemma run_deltas_completed:
  assumes "index \<in> completedToolCallIndices this"
  shows "\<exists>this' pss. processEvents rt m this (map (deltaEvent index) ds) = (this', pss, None)
      \<and> length pss = length ds
      \<and> (\<forall>ps \<in> set pss. toolCallsOf ps = [])
      \<and> index \<in> completedToolCallIndices this'"
  using assms
proof (induction ds arbitrary: this)
  case Nil
  then show ?case by simp
next
  case (Cons d ds)
  obtain i n a where d: "d = (i, n, a)" by (cases d)
  from handle_delta_completed[OF Cons.prems, of rt m i n a]
  obtain this1 ps where h: "handleEvent rt m this (EvToolCall index i n a) = (this1, ps, None)"
    and ps: "toolCallsOf ps = []"
    and c1: "completedToolCallIndices this1 = completedToolCallIndices this"
    by blast
  from Cons.prems c1 have "index \<in> completedToolCallIndices this1" by simp
  from Cons.IH[OF this]
  obtain this2 pss where r: "processEvents rt m this1 (map (deltaEvent index) ds) = (this2, pss, None)"
    and l: "length pss = length ds"
    and e: "\<forall>ps \<in> set pss. toolCallsOf ps = []"
    and c2: "index \<in> completedToolCallIndices this2"
    by blast
  have "processEvents rt m this (map (deltaEvent index) (d # ds)) = (this2, ps # pss, None)"
    by (simp add: d deltaEvent_simp h r del: handleEvent.simps)
  then show ?case
    using ps l e c2 by auto
qed

lemma run_deltas_open:
  assumes "index \<notin> completedToolCallIndices this"
  shows "\<exists>this' pss. processEvents rt m this (map (deltaEvent index) ds) = (this', pss, None)
      \<and> length pss = length ds
      \<and> (\<forall>k<length ds. toolCallsOf (pss ! k) =
            (if \<forall>j<k. readyCall rt (mergeDeltas (bufferAt this index) (take (Suc j) ds)) = []
             then readyCall rt (mergeDeltas (bufferAt this index) (take (Suc k) ds)) else []))
      \<and> ((\<exists>k<length ds. readyCall rt (mergeDeltas (bufferAt this index) (take (Suc k) ds)) \<noteq> [])
           \<longleftrightarrow> index \<in> completedToolCallIndices this')
      \<and> length (callsIn pss) =
          (if \<exists>k<length ds. readyCall rt (mergeDeltas (bufferAt this index) (take (Suc k) ds)) \<noteq> []
           then 1 else 0)"
  using assms
proof (induction ds arbitrary: this)
  case Nil
  then show ?case by (simp add: callsIn_Nil)
next
  case (Cons d ds)
  obtain i n a where d: "d = (i, n, a)" by (cases d)
  let ?b = "mergeDelta (bufferAt this index) i n a"
  have m: "\<And>xs. mergeDeltas (bufferAt this index) (d # xs) = mergeDeltas ?b xs"
    by (simp add: mergeDeltas_def d)
  from handle_delta_open[OF Cons.prems, of rt m i n a]
  obtain this1 ps where h: "handleEvent rt m this (EvToolCall index i n a) = (this1, ps, None)"
    and ps: "toolCallsOf ps = readyCall rt ?b"
    and no: "readyCall rt ?b = [] \<longrightarrow>
               index \<notin> completedToolCallIndices this1 \<and> bufferAt this1 index = ?b"
    and yes: "readyCall rt ?b \<noteq> [] \<longrightarrow> index \<in> completedToolCallIndices this1"
    by blast
  have m0: "mergeDeltas ?b [] = ?b" by (simp add: mergeDeltas_def)
  show ?case
  proof (cases "readyCall rt ?b = []")
    case True
    with no have nc: "index \<notin> completedToolCallIndices this1" and b1: "bufferAt this1 index = ?b"
      by simp_all
    from Cons.IH[OF nc]
    obtain this2 pss where r: "processEvents rt m this1 (map (deltaEvent index) ds) = (this2, pss, None)"
      and l: "length pss = length ds"
      and e: "\<forall>k<length ds. toolCallsOf (pss ! k) =
            (if \<forall>j<k. readyCall rt (mergeDeltas ?b (take (Suc j) ds)) = []
             then readyCall rt (mergeDeltas ?b (take (Suc k) ds)) else [])"
      and c: "(\<exists>k<length ds. readyCall rt (mergeDeltas ?b (take (Suc k) ds)) \<noteq> [])
           \<longleftrightarrow> index \<in> completedToolCallIndices this2"
      and n: "length (callsIn pss) =
          (if \<exists>k<length ds. readyCall rt (mergeDeltas ?b (take (Suc k) ds)) \<noteq> [] then 1 else 0)"
      unfolding b1 by blast
    have run: "processEvents rt m this (map (deltaEvent index) (d # ds)) = (this2, ps # pss, None)"
      by (simp add: d deltaEvent_simp h r del: handleEvent.simps)
    have steps: "toolCallsOf ((ps # pss) ! k) =
            (if \<forall>j<k. readyCall rt (mergeDeltas (bufferAt this index) (take (Suc j) (d # ds))) = []
             then readyCall rt (mergeDeltas (bufferAt this index) (take (Suc k) (d # ds))) else [])"
      if k: "k < length (d # ds)" for k
    proof (cases k)
      case 0
      then show ?thesis using ps by (simp add: m m0)
    next
      case (Suc k')
      with k have k': "k' < length ds" by simp
      have q: "(\<forall>j<k. readyCall rt (mergeDeltas (bufferAt this index) (take (Suc j) (d # ds))) = [])
           \<longleftrightarrow> (\<forall>j<k'. readyCall rt (mergeDeltas ?b (take (Suc j) ds)) = [])"
        unfolding Suc All_less_Suc2 using True by (simp add: m m0)
      have lhs: "(ps # pss) ! k = pss ! k'" by (simp add: Suc)
      have r1: "mergeDeltas (bufferAt this index) (take (Suc k) (d # ds))
                  = mergeDeltas ?b (take (Suc k') ds)"
        by (simp add: Suc m)
      show ?thesis
        unfolding q lhs r1 using e k' by blast
    qed
    have compl: "(\<exists>k<length (d # ds).
            readyCall rt (mergeDeltas (bufferAt this index) (take (Suc k) (d # ds))) \<noteq> [])
           \<longleftrightarrow> index \<in> completedToolCallIndices this2"
      unfolding length_Cons Ex_less_Suc2 using c True by (simp add: m m0)
    have count: "length (callsIn (ps # pss)) =
          (if \<exists>k<length (d # ds).
                readyCall rt (mergeDeltas (bufferAt this index) (take (Suc k) (d # ds))) \<noteq> []
           then 1 else 0)"
      unfolding length_Cons Ex_less_Suc2 using n ps True by (simp add: m m0 callsIn_Cons)
    show ?thesis
      using run l steps compl count by auto
  next
    case False
    with yes have cc: "index \<in> completedToolCallIndices this1" by simp
    from run_deltas_completed[OF cc, of rt m ds]
    obtain this2 pss where r: "processEvents rt m this1 (map (deltaEvent index) ds) = (this2, pss, None)"
      and l: "length pss = length ds"
      and e: "\<forall>ps \<in> set pss. toolCallsOf ps = []"
      and c: "index \<in> completedToolCallIndices this2"
      by blast
    have run: "processEvents rt m this (map (deltaEvent index) (d # ds)) = (this2, ps # pss, None)"
      by (simp add: d deltaEvent_simp h r del: handleEvent.simps)
    have steps: "toolCallsOf ((ps # pss) ! k) =
            (if \<forall>j<k. readyCall rt (mergeDeltas (bufferAt this index) (take (Suc j) (d # ds))) = []
             then readyCall rt (mergeDeltas (bufferAt this index) (take (Suc k) (d # ds))) else [])"
      if k: "k < length (d # ds)" for k
    proof (cases k)
      case 0
      then show ?thesis using ps by (simp add: m m0)
    next
      case (Suc k')
      with k l have "pss ! k' \<in> set pss" by simp
      with e have z: "toolCallsOf (pss ! k') = []" by blast
      have q: "\<not> (\<forall>j<k. readyCall rt (mergeDeltas (bufferAt this index) (take (Suc j) (d # ds))) = [])"
        unfolding Suc All_less_Suc2 using False by (simp add: m m0)
      have lhs: "(ps # pss) ! k = pss ! k'" by (simp add: Suc)
      show ?thesis
        unfolding lhs z using q by (simp only: if_False)
    qed
    have compl: "(\<exists>k<length (d # ds).
            readyCall rt (mergeDeltas (bufferAt this index) (take (Suc k) (d # ds))) \<noteq> [])
           \<longleftrightarrow> index \<in> completedToolCallIndices this2"
      unfolding length_Cons Ex_less_Suc2 using c False by (simp add: m m0)
    have "callsIn pss = []" using e by (rule callsIn_none)
    moreover have "length (readyCall rt ?b) = 1"
      using False by (auto simp: readyCall_def split: option.splits if_splits)
    ultimately have count: "length (callsIn (ps # pss)) =
          (if \<exists>k<length (d # ds).
                readyCall rt (mergeDeltas (bufferAt this index) (take (Suc k) (d # ds))) \<noteq> []
           then 1 else 0)"
      unfolding length_Cons Ex_less_Suc2 using ps False by (simp add: m m0 callsIn_Cons)
    show ?thesis
      using run l steps compl count by auto
  qed
qed

lemma completeCall_empty_iff: "completeCall rt ds = [] \<longleftrightarrow> \<not> bufferComplete rt ds"
  by (auto simp: completeCall_def bufferComplete_def split: option.splits)

text \<open>
  Claim C1. Deltas addressed to one index, from a state in which the index is neither
  completed nor buffered: the run raises nothing, and the event at position \<open>k\<close> reports
  the tool call exactly when the deltas up to \<open>k\<close> are the first to be complete (a name
  that is not empty, fragments that parse as a JSON object). So the call is reported at the
  earliest such delta, at once and not at the end of the stream, and the run reports one
  call if some prefix is complete and none otherwise.
\<close>

theorem eager_emission:
  assumes "index \<notin> completedToolCallIndices this"
    and "map_of (toolCallBuffers this) index = None"
  shows "\<exists>this' pss.
      processEvents rt modelId this (map (deltaEvent index) ds) = (this', pss, None)
      \<and> length pss = length ds
      \<and> (\<forall>k<length ds. toolCallsOf (pss ! k) =
            (if bufferComplete rt (take (Suc k) ds) \<and> (\<forall>j<k. \<not> bufferComplete rt (take (Suc j) ds))
             then completeCall rt (take (Suc k) ds) else []))
      \<and> length (callsIn pss) =
          (if \<exists>k<length ds. bufferComplete rt (take (Suc k) ds) then 1 else 0)"
proof -
  have b: "bufferAt this index = \<lparr>buf_id = None, buf_name = None, buf_args = []\<rparr>"
    using assms(2) by (simp add: bufferAt_def)
  from run_deltas_open[OF assms(1), of rt modelId ds]
  obtain this' pss where
    r: "processEvents rt modelId this (map (deltaEvent index) ds) = (this', pss, None)"
    and l: "length pss = length ds"
    and e: "\<forall>k<length ds. toolCallsOf (pss ! k) =
            (if \<forall>j<k. completeCall rt (take (Suc j) ds) = []
             then completeCall rt (take (Suc k) ds) else [])"
    and n: "length (callsIn pss) =
          (if \<exists>k<length ds. completeCall rt (take (Suc k) ds) \<noteq> [] then 1 else 0)"
    unfolding b readyCall_accumulated by blast
  have "toolCallsOf (pss ! k) =
            (if bufferComplete rt (take (Suc k) ds) \<and> (\<forall>j<k. \<not> bufferComplete rt (take (Suc j) ds))
             then completeCall rt (take (Suc k) ds) else [])" if "k < length ds" for k
    using e[rule_format, OF that] by (auto simp: completeCall_empty_iff)
  then show ?thesis
    using r l n by (auto simp: completeCall_empty_iff)
qed

lemma threeFragments_prefixes:
  "\<not> bufferComplete exampleRuntime (take 1 threeFragments)"
  "\<not> bufferComplete exampleRuntime (take 2 threeFragments)"
  "bufferComplete exampleRuntime (take 3 threeFragments)"
  "completeCall exampleRuntime (take 3 threeFragments) =
     [ToolCallPart (CallId ''call_1'') ''f'' (JObj [(''a'', JNum 1)])]"
  by code_simp+

text \<open>The three fragments: nothing after the first two, the call after the third.\<close>

theorem eager_emission_witness:
  "\<exists>this' pss.
      processEvents exampleRuntime ''m'' (newProvider :: int provider)
        (map (deltaEvent 0) threeFragments) = (this', pss, None)
      \<and> length pss = 3
      \<and> toolCallsOf (pss ! 0) = []
      \<and> toolCallsOf (pss ! 1) = []
      \<and> toolCallsOf (pss ! 2) = [ToolCallPart (CallId ''call_1'') ''f'' (JObj [(''a'', JNum 1)])]
      \<and> length (callsIn pss) = 1"
proof -
  have h1: "(0::int) \<notin> completedToolCallIndices (newProvider :: int provider)"
    by (simp add: newProvider_def)
  have h2: "map_of (toolCallBuffers (newProvider :: int provider)) (0::int) = None"
    by (simp add: newProvider_def)
  have len: "length threeFragments = 3" by (simp add: threeFragments_def)
  from eager_emission[OF h1 h2, of exampleRuntime "''m''" threeFragments]
  obtain this' pss where
    r: "processEvents exampleRuntime ''m'' (newProvider :: int provider)
          (map (deltaEvent 0) threeFragments) = (this', pss, None)"
    and l: "length pss = length threeFragments"
    and e: "\<forall>k<length threeFragments. toolCallsOf (pss ! k) =
            (if bufferComplete exampleRuntime (take (Suc k) threeFragments)
                \<and> (\<forall>j<k. \<not> bufferComplete exampleRuntime (take (Suc j) threeFragments))
             then completeCall exampleRuntime (take (Suc k) threeFragments) else [])"
    and n: "length (callsIn pss) =
          (if \<exists>k<length threeFragments. bufferComplete exampleRuntime (take (Suc k) threeFragments)
           then 1 else 0)"
    by blast
  have e0: "toolCallsOf (pss ! 0) = []"
    using e[rule_format, of 0] threeFragments_prefixes by (simp add: len)
  have e1: "toolCallsOf (pss ! 1) = []"
    using e[rule_format, of 1] threeFragments_prefixes by (simp add: len numeral_2_eq_2)
  have e2: "toolCallsOf (pss ! 2) = [ToolCallPart (CallId ''call_1'') ''f'' (JObj [(''a'', JNum 1)])]"
    using e[rule_format, of 2] threeFragments_prefixes
    by (simp add: len numeral_3_eq_3 All_less_Suc numeral_2_eq_2)
  have "\<exists>k<length threeFragments. bufferComplete exampleRuntime (take (Suc k) threeFragments)"
    using threeFragments_prefixes(3) by (intro exI[of _ 2]) (simp add: len numeral_3_eq_3)
  with n have n1: "length (callsIn pss) = 1" by simp
  show ?thesis
    using r l e0 e1 e2 n1 len by auto
qed






lemma emitTextToolCallIfValid_cases:
  "emitTextToolCallIfValid rt this call argText = (False, this, [])
   \<or> (\<exists>name parsed this'.
         emitTextToolCallIfValid rt this call argText = (True, this', [ToolCallPart RandomTctId name parsed])
         \<and> emittedTextToolCallKeys this \<subseteq> emittedTextToolCallKeys this'
         \<and> toolCallBuffers this' = toolCallBuffers this
         \<and> completedToolCallIndices this' = completedToolCallIndices this)"
proof (cases "tryParseJSONObject rt argText")
  case None
  then show ?thesis by (simp add: emitTextToolCallIfValid_def)
next
  case (Some parsed)
  show ?thesis
  proof (cases "call_index call")
    case None
    then show ?thesis
      using Some by (auto simp: emitTextToolCallIfValid_def Let_def)
  next
    case (Some idx)
    then show ?thesis
      using \<open>tryParseJSONObject rt argText = Some parsed\<close>
      by (auto simp: emitTextToolCallIfValid_def Let_def)
  qed
qed

lemma emitTextToolCallIfValid_parts:
  assumes "emitTextToolCallIfValid rt this call argText = (did, this', ps)"
  shows "(\<forall>p \<in> set ps. \<not> isDeltaCall p)
     \<and> emittedTextToolCallKeys this \<subseteq> emittedTextToolCallKeys this'
     \<and> toolCallBuffers this' = toolCallBuffers this
     \<and> completedToolCallIndices this' = completedToolCallIndices this"
  using emitTextToolCallIfValid_cases[of rt this call argText] assms
  by (auto simp: isDeltaCall_def)

lemma flushActiveTextToolCall_parts:
  assumes "flushActiveTextToolCall rt this = (this', ps)"
  shows "(\<forall>p \<in> set ps. \<not> isDeltaCall p)
     \<and> emittedTextToolCallKeys this \<subseteq> emittedTextToolCallKeys this'
     \<and> toolCallBuffers this' = toolCallBuffers this
     \<and> completedToolCallIndices this' = completedToolCallIndices this"
proof (cases "textToolActive this")
  case None
  with assms show ?thesis by (simp add: flushActiveTextToolCall_def)
next
  case (Some act)
  show ?thesis
  proof (cases "tryParseJSONObject rt (argBuffer act)")
    case None
    with Some assms show ?thesis by (simp add: flushActiveTextToolCall_def)
  next
    case (Some parsed)
    obtain did this1 ps1 where e: "emitTextToolCallIfValid rt this act (argBuffer act) = (did, this1, ps1)"
      by (cases "emitTextToolCallIfValid rt this act (argBuffer act)")
    from assms have "this' = this1\<lparr>textToolActive := None\<rparr>" "ps = ps1"
      using \<open>textToolActive this = Some act\<close> Some e by (simp_all add: flushActiveTextToolCall_def)
    with emitTextToolCallIfValid_parts[OF e] show ?thesis by simp
  qed
qed

lemma flushEntries_silent:
  "\<exists>this'. flushEntries rt False entries this
            = (this', concat (map (flushedCall rt) entries), None)"
proof (induction entries arbitrary: this)
  case Nil
  then show ?case by simp
next
  case (Cons e entries)
  obtain idx buf where e: "e = (idx, buf)" by (cases e)
  show ?case
  proof (cases "tryParseJSONObject rt (buf_args buf)")
    case None
    then have "flushedCall rt (idx, buf) = []" by (simp add: flushedCall_def)
    with Cons.IH[of this] None show ?thesis by (auto simp: e)
  next
    case (Some parsed)
    let ?this1 = "this\<lparr>emittedTextToolCallKeys :=
                               insert ((case buf_name buf of None \<Rightarrow> ''unknown_tool'' | Some n \<Rightarrow> n)
                                        @ '':'' @ JSON_stringify rt parsed)
                                 (emittedTextToolCallKeys this),
                             toolCallBuffers := AList.delete idx (toolCallBuffers this),
                             completedToolCallIndices := insert idx (completedToolCallIndices this)\<rparr>"
    from Cons.IH[of ?this1] obtain this' where
      "flushEntries rt False entries ?this1 = (this', concat (map (flushedCall rt) entries), None)"
      by blast
    moreover have "flushedCall rt (idx, buf) =
        [ToolCallPart (bufferCallId buf)
           (case buf_name buf of None \<Rightarrow> ''unknown_tool'' | Some n \<Rightarrow> n) parsed]"
      by (simp add: flushedCall_def Some)
    ultimately show ?thesis by (simp add: e Some Let_def)
  qed
qed

lemma flushEntries_throws:
  assumes "(idx, buf) \<in> set entries" and "tryParseJSONObject rt (buf_args buf) = None"
  shows "snd (snd (flushEntries rt True entries this)) = Some InvalidJSONForToolCall"
  using assms
proof (induction entries arbitrary: this)
  case Nil
  then show ?case by simp
next
  case (Cons e entries)
  obtain idx' buf' where e: "e = (idx', buf')" by (cases e)
  show ?case
  proof (cases "tryParseJSONObject rt (buf_args buf')")
    case None
    then show ?thesis by (simp add: e)
  next
    case (Some parsed)
    with Cons.prems e have m: "(idx, buf) \<in> set entries" by auto
    let ?this1 = "this\<lparr>emittedTextToolCallKeys :=
                               insert ((case buf_name buf' of None \<Rightarrow> ''unknown_tool'' | Some n \<Rightarrow> n)
                                        @ '':'' @ JSON_stringify rt parsed)
                                 (emittedTextToolCallKeys this),
                             toolCallBuffers := AList.delete idx' (toolCallBuffers this),
                             completedToolCallIndices := insert idx' (completedToolCallIndices this)\<rparr>"
    obtain t ps err where r: "flushEntries rt True entries ?this1 = (t, ps, err)"
      by (cases "flushEntries rt True entries ?this1")
    from Cons.IH[OF m Cons.prems(2), of ?this1] r have "err = Some InvalidJSONForToolCall"
      by simp
    then show ?thesis
      using r by (simp add: e Some Let_def)
  qed
qed

lemma flushedCall_delta: "\<forall>p \<in> set (flushedCall rt entry). isDeltaCall p"
  by (auto simp: flushedCall_def isDeltaCall_def bufferCallId_def split: option.splits)

text \<open>
  Claim C2. With a buffer whose arguments do not parse as a JSON object, a finish event
  with reason \<^verbatim>\<open>stop\<close> or \<^verbatim>\<open>tool_calls\<close> raises the error; a done event in the same
  state raises nothing, and the reconstructor reports then one call for each buffer that
  parses, in the order of the map, and nothing for the one that does not.
\<close>

theorem finish_raises_done_drops:
  assumes "(idx, buf) \<in> set (toolCallBuffers this)"
    and "tryParseJSONObject rt (buf_args buf) = None"
  shows "snd (snd (handleEvent rt modelId this (EvFinish (JStr ''stop'')))) = Some InvalidJSONForToolCall
    \<and> snd (snd (handleEvent rt modelId this (EvFinish (JStr ''tool_calls'')))) = Some InvalidJSONForToolCall
    \<and> snd (snd (handleEvent rt modelId this EvDone)) = None
    \<and> filter isDeltaCall (fst (snd (handleEvent rt modelId this EvDone)))
        = concat (map (flushedCall rt) (toolCallBuffers this))
    \<and> flushedCall rt (idx, buf) = []"
proof -
  from assms(1) have ne: "toolCallBuffers this \<noteq> []" by auto
  have f: "snd (snd (flushToolCallBuffers rt True this)) = Some InvalidJSONForToolCall"
    using flushEntries_throws[OF assms] ne by (simp add: flushToolCallBuffers_def)
  from flushEntries_silent[of rt "toolCallBuffers this" this]
  obtain this1 where s: "flushToolCallBuffers rt False this
      = (this1, concat (map (flushedCall rt) (toolCallBuffers this)), None)"
    using ne by (auto simp: flushToolCallBuffers_def)
  obtain this2 ps2 where a: "flushActiveTextToolCall rt this1 = (this2, ps2)"
    by (cases "flushActiveTextToolCall rt this1")
  from flushActiveTextToolCall_parts[OF a] have p2: "filter isDeltaCall ps2 = []"
    by (simp add: filter_empty_conv)
  have "isDeltaCall p" if "p \<in> set (concat (map (flushedCall rt) (toolCallBuffers this)))" for p
  proof -
    from that obtain entry where "entry \<in> set (toolCallBuffers this)"
      and "p \<in> set (flushedCall rt entry)" by auto
    with flushedCall_delta[of rt entry] show ?thesis by blast
  qed
  then have p1: "filter isDeltaCall (concat (map (flushedCall rt) (toolCallBuffers this)))
           = concat (map (flushedCall rt) (toolCallBuffers this))"
    by (simp only: filter_id_conv) blast
  have d: "handleEvent rt modelId this EvDone
        = (this2, concat (map (flushedCall rt) (toolCallBuffers this)) @ ps2, None)"
    by (simp add: flushBoth_def s a)
  have e: "flushedCall rt (idx, buf) = []"
    using assms(2) by (simp add: flushedCall_def)
  have fin: "handleEvent rt modelId this (EvFinish (JStr ''stop'')) = flushToolCallBuffers rt True this"
    "handleEvent rt modelId this (EvFinish (JStr ''tool_calls'')) = flushToolCallBuffers rt True this"
    by simp_all
  have parts: "filter isDeltaCall (fst (snd (handleEvent rt modelId this EvDone)))
        = concat (map (flushedCall rt) (toolCallBuffers this))"
    unfolding d by (simp only: fst_conv snd_conv filter_append p1 p2 append_Nil2)
  have noerr: "snd (snd (handleEvent rt modelId this EvDone)) = None"
    unfolding d by simp
  show ?thesis
    unfolding fin using f e parts noerr by blast
qed

text \<open>
  The provider with the cut-short buffer: a finish raises; a done reports the nameless
  call of index 2 only.
\<close>

theorem finish_raises_done_drops_witness:
  "snd (snd (handleEvent exampleRuntime ''m'' pendingProvider (EvFinish (JStr ''stop''))))
     = Some InvalidJSONForToolCall
   \<and> snd (snd (handleEvent exampleRuntime ''m'' pendingProvider (EvFinish (JStr ''tool_calls''))))
     = Some InvalidJSONForToolCall
   \<and> snd (snd (handleEvent exampleRuntime ''m'' pendingProvider EvDone)) = None
   \<and> filter isDeltaCall (fst (snd (handleEvent exampleRuntime ''m'' pendingProvider EvDone)))
       = [ToolCallPart (CallId ''c2'') ''unknown_tool'' (JObj [])]"
proof -
  have h1: "(0, \<lparr>buf_id = Some ''c1'', buf_name = Some ''f'', buf_args = ''{''\<rparr>)
              \<in> set (toolCallBuffers pendingProvider)"
    by (simp add: pendingProvider_def)
  have h2: "tryParseJSONObject exampleRuntime
              (buf_args \<lparr>buf_id = Some ''c1'', buf_name = Some ''f'', buf_args = ''{''\<rparr>) = None"
    by code_simp
  have c: "concat (map (flushedCall exampleRuntime) (toolCallBuffers pendingProvider))
             = [ToolCallPart (CallId ''c2'') ''unknown_tool'' (JObj [])]"
    by code_simp
  from finish_raises_done_drops[OF h1 h2, of "''m''"] show ?thesis
    unfolding c by blast
qed

section \<open>Properties of the inline tokenizer and of the per-turn state\<close>

lemma loopInv_trans:
  assumes "loopInv this1 out1 r"
    and "emittedTextToolCallKeys this \<subseteq> emittedTextToolCallKeys this1"
    and "toolCallBuffers this1 = toolCallBuffers this"
    and "completedToolCallIndices this1 = completedToolCallIndices this"
    and "(\<forall>p \<in> set out. \<not> isDeltaCall p) \<longrightarrow> (\<forall>p \<in> set out1. \<not> isDeltaCall p)"
  shows "loopInv this out r"
  using assms by (auto simp: loopInv_def split: prod.splits)

lemma textToolLoop_inv:
  "loopInv this out (textToolLoop rt this data visibleOut emittedAny out)"
proof (induction rt this data visibleOut emittedAny out rule: textToolLoop.induct)
  case (1 rt this data visibleOut emittedAny out)
  show ?case
  proof (cases "data = []")
    case True
    then show ?thesis by (subst textToolLoop.simps) (simp add: loopInv_def)
  next
    case ne: False
    show ?thesis
    proof (cases "textToolActive this")
      case None
      show ?thesis
      proof (cases "indexOf data BEGIN")
        case nb: None
        show ?thesis
          using ne None nb by (subst textToolLoop.simps) (simp add: loopInv_def Let_def)
      next
        case (Some b)
        let ?data1 = "drop (b + length BEGIN) data"
        let ?vis1 = "(if take b data \<noteq> [] then visibleOut @ stripControlTokens (take b data)
                                      else visibleOut)"
        let ?delim = "(case indexOf ?data1 ARG_BEGIN of
                            Some ai \<Rightarrow>
                              (case indexOf ?data1 END of
                                 None \<Rightarrow> Some (ai, True)
                               | Some ei \<Rightarrow> if ai < ei then Some (ai, True) else Some (ei, False))
                          | None \<Rightarrow> (case indexOf ?data1 END of None \<Rightarrow> None | Some ei \<Rightarrow> Some (ei, False)))"
        show ?thesis
        proof (cases ?delim)
          case nd: None
          show ?thesis
            using ne \<open>textToolActive this = None\<close> Some nd
            by (subst textToolLoop.simps) (simp add: loopInv_def Let_def)
        next
          case sd: (Some d)
          obtain delimIdx isArg where d: "d = (delimIdx, isArg)" by (cases d)
          let ?header = "trim (take delimIdx ?data1)"
          let ?active = "\<lparr>call_name = fst (parseHeader ?header),
                                         call_index = snd (parseHeader ?header),
                                         argBuffer = [], emitted = False\<rparr>"
          show ?thesis
          proof (cases isArg)
            case True
            have ih: "loopInv (this\<lparr>textToolActive := Some ?active\<rparr>) out
                (textToolLoop rt (this\<lparr>textToolActive := Some ?active\<rparr>)
                                  (drop (delimIdx + length ARG_BEGIN) ?data1) ?vis1 emittedAny out)"
              using ne \<open>textToolActive this = None\<close> Some sd d True
              by (intro "1.IH"(1)) auto
            have eq: "textToolLoop rt this data visibleOut emittedAny out =
                textToolLoop rt (this\<lparr>textToolActive := Some ?active\<rparr>)
                                  (drop (delimIdx + length ARG_BEGIN) ?data1) ?vis1 emittedAny out"
              using ne \<open>textToolActive this = None\<close> Some sd d True
              by (subst textToolLoop.simps) (simp add: Let_def)
            show ?thesis
              unfolding eq by (rule loopInv_trans[OF ih]) simp_all
          next
            case False
            obtain did this1 ps where
              e: "emitTextToolCallIfValid rt (this\<lparr>textToolActive := Some ?active\<rparr>) ?active ''{}''
                    = (did, this1, ps)"
              by (cases "emitTextToolCallIfValid rt (this\<lparr>textToolActive := Some ?active\<rparr>) ?active ''{}''")
            have ih: "loopInv (this1\<lparr>textToolActive := None\<rparr>) (out @ ps)
                (textToolLoop rt (this1\<lparr>textToolActive := None\<rparr>)
                                       (drop (delimIdx + length END) ?data1) ?vis1
                                       (emittedAny \<or> did) (out @ ps))"
              using ne \<open>textToolActive this = None\<close> Some sd d False e
              by (intro "1.IH"(2)) auto
            have eq: "textToolLoop rt this data visibleOut emittedAny out =
                textToolLoop rt (this1\<lparr>textToolActive := None\<rparr>)
                                       (drop (delimIdx + length END) ?data1) ?vis1
                                       (emittedAny \<or> did) (out @ ps)"
              using ne \<open>textToolActive this = None\<close> Some sd d False e
              by (subst textToolLoop.simps) (simp add: Let_def)
            show ?thesis
              unfolding eq using emitTextToolCallIfValid_parts[OF e]
              by (intro loopInv_trans[OF ih]) auto
          qed
        qed
      qed
    next
      case (Some act)
      show ?thesis
      proof (cases "indexOf data END")
        case None
        let ?act1 = "act\<lparr>argBuffer := argBuffer act @ data\<rparr>"
        show ?thesis
        proof (cases "emitted act")
          case True
          show ?thesis
            using ne Some None True by (subst textToolLoop.simps) (simp add: loopInv_def Let_def)
        next
          case False
          obtain did this1 ps where
            e: "emitTextToolCallIfValid rt (this\<lparr>textToolActive := Some ?act1\<rparr>) ?act1 (argBuffer ?act1)
                    = (did, this1, ps)"
            by (cases "emitTextToolCallIfValid rt (this\<lparr>textToolActive := Some ?act1\<rparr>) ?act1 (argBuffer ?act1)")
          have eq: "textToolLoop rt this data visibleOut emittedAny out =
              (this1\<lparr>textToolActive := Some (?act1\<lparr>emitted := did\<rparr>)\<rparr>, [],
                             visibleOut, emittedAny \<or> did, out @ ps)"
            using ne Some None False e by (subst textToolLoop.simps) (simp add: Let_def)
          show ?thesis
            unfolding eq using emitTextToolCallIfValid_parts[OF e]
            by (auto simp: loopInv_def)
        qed
      next
        case se: (Some e2)
        let ?act1 = "act\<lparr>argBuffer := argBuffer act @ take e2 data\<rparr>"
        let ?data1 = "drop (e2 + length END) data"
        show ?thesis
        proof (cases "emitted act")
          case True
          have ih: "loopInv (this\<lparr>textToolActive := None\<rparr>) out
              (textToolLoop rt (this\<lparr>textToolActive := None\<rparr>) ?data1 visibleOut emittedAny out)"
            using True by (intro "1.IH"(4)[OF ne Some se refl refl]) simp
          have eq: "textToolLoop rt this data visibleOut emittedAny out =
              textToolLoop rt (this\<lparr>textToolActive := None\<rparr>) ?data1 visibleOut emittedAny out"
            using ne Some se True by (subst textToolLoop.simps) (simp add: Let_def)
          show ?thesis
            unfolding eq by (rule loopInv_trans[OF ih]) simp_all
        next
          case False
          obtain did this1 ps where
            e: "emitTextToolCallIfValid rt (this\<lparr>textToolActive := Some ?act1\<rparr>) ?act1 (argBuffer ?act1)
                    = (did, this1, ps)"
            by (cases "emitTextToolCallIfValid rt (this\<lparr>textToolActive := Some ?act1\<rparr>) ?act1 (argBuffer ?act1)")
          have ih: "loopInv (this1\<lparr>textToolActive := None\<rparr>) (out @ ps)
              (textToolLoop rt (this1\<lparr>textToolActive := None\<rparr>) ?data1 visibleOut
                               (emittedAny \<or> did) (out @ ps))"
            using False by (intro "1.IH"(3)[OF ne Some se refl refl _ e[symmetric] refl]) simp
          have eq: "textToolLoop rt this data visibleOut emittedAny out =
              textToolLoop rt (this1\<lparr>textToolActive := None\<rparr>) ?data1 visibleOut
                               (emittedAny \<or> did) (out @ ps)"
            using ne Some se False e by (subst textToolLoop.simps) (simp add: Let_def)
          show ?thesis
            unfolding eq using emitTextToolCallIfValid_parts[OF e]
            by (intro loopInv_trans[OF ih]) auto
        qed
      qed
    qed
  qed
qed

lemma keysRecorded_refl: "keysRecorded rt this [] this"
  by (simp add: keysRecorded_def)

lemma keysRecorded_trans:
  assumes "keysRecorded rt this ps1 this1" and "keysRecorded rt this1 ps2 this2"
  shows "keysRecorded rt this (ps1 @ ps2) this2"
  using assms by (auto simp: keysRecorded_def)

lemma keysRecorded_no_delta:
  assumes "emittedTextToolCallKeys this \<subseteq> emittedTextToolCallKeys this'"
    and "\<forall>p \<in> set ps. \<not> isDeltaCall p"
  shows "keysRecorded rt this ps this'"
  using assms by (auto simp: keysRecorded_def)

lemma processTextContent_inv:
  assumes "processTextContent rt this input = (this', emittedText, emittedAny, ps)"
  shows "textToolParserBuffer this' = []
     \<and> emittedTextToolCallKeys this \<subseteq> emittedTextToolCallKeys this'
     \<and> toolCallBuffers this' = toolCallBuffers this
     \<and> completedToolCallIndices this' = completedToolCallIndices this
     \<and> (\<forall>p \<in> set ps. \<not> isDeltaCall p)"
proof -
  obtain this1 data vis ea out where
    l: "textToolLoop rt this (textToolParserBuffer this @ input) [] False [] = (this1, data, vis, ea, out)"
    by (cases "textToolLoop rt this (textToolParserBuffer this @ input) [] False []")
  from textToolLoop_inv[of this "[]" rt "textToolParserBuffer this @ input" "[]" False]
  have i: "data = []"
    "emittedTextToolCallKeys this \<subseteq> emittedTextToolCallKeys this1"
    "toolCallBuffers this1 = toolCallBuffers this"
    "completedToolCallIndices this1 = completedToolCallIndices this"
    "\<forall>p \<in> set out. \<not> isDeltaCall p"
    unfolding l by (simp_all add: loopInv_def)
  from assms show ?thesis
    unfolding processTextContent_def l using i
    by (auto simp: isDeltaCall_def split: if_splits)
qed

lemma tryEmitBufferedToolCall_keys:
  assumes "tryEmitBufferedToolCall rt index this = (this', ps)"
  shows "keysRecorded rt this ps this'"
  using assms
  by (auto simp: tryEmitBufferedToolCall_def keysRecorded_def callKey_def
      split: option.splits if_splits)

lemma flushEntries_keys:
  assumes "flushEntries rt thr entries this = (this', ps, err)"
  shows "keysRecorded rt this ps this'"
  using assms
proof (induction entries arbitrary: this this' ps err)
  case Nil
  then show ?case by (simp add: keysRecorded_def)
next
  case (Cons e entries)
  obtain idx buf where e: "e = (idx, buf)" by (cases e)
  show ?case
  proof (cases "tryParseJSONObject rt (buf_args buf)")
    case None
    show ?thesis
    proof (cases thr)
      case True
      with Cons.prems None show ?thesis by (simp add: e keysRecorded_def)
    next
      case False
      with Cons.prems None have "flushEntries rt thr entries this = (this', ps, err)"
        by (simp add: e)
      from Cons.IH[OF this] show ?thesis .
    qed
  next
    case (Some parsed)
    let ?name = "(case buf_name buf of None \<Rightarrow> ''unknown_tool'' | Some n \<Rightarrow> n)"
    let ?this1 = "this\<lparr>emittedTextToolCallKeys :=
                               insert (?name @ '':'' @ JSON_stringify rt parsed)
                                 (emittedTextToolCallKeys this),
                             toolCallBuffers := AList.delete idx (toolCallBuffers this),
                             completedToolCallIndices := insert idx (completedToolCallIndices this)\<rparr>"
    obtain this2 ps2 err2 where r: "flushEntries rt thr entries ?this1 = (this2, ps2, err2)"
      by (cases "flushEntries rt thr entries ?this1")
    from Cons.prems have eq: "this' = this2" "ps = ToolCallPart (bufferCallId buf) ?name parsed # ps2"
      using r by (simp_all add: e Some Let_def)
    have k1: "keysRecorded rt this [ToolCallPart (bufferCallId buf) ?name parsed] ?this1"
      by (auto simp: keysRecorded_def callKey_def)
    from keysRecorded_trans[OF k1 Cons.IH[OF r]] show ?thesis
      by (simp add: eq)
  qed
qed

lemma flushToolCallBuffers_keys:
  assumes "flushToolCallBuffers rt thr this = (this', ps, err)"
  shows "keysRecorded rt this ps this'"
proof (cases "toolCallBuffers this = []")
  case True
  with assms show ?thesis by (simp add: flushToolCallBuffers_def keysRecorded_def)
next
  case False
  with assms have "flushEntries rt thr (toolCallBuffers this) this = (this', ps, err)"
    by (simp add: flushToolCallBuffers_def)
  then show ?thesis by (rule flushEntries_keys)
qed

lemma flushBoth_keys:
  assumes "flushBoth rt this = (this', ps, err)"
  shows "keysRecorded rt this ps this'"
proof -
  obtain this1 ps1 err1 where f: "flushToolCallBuffers rt False this = (this1, ps1, err1)"
    by (cases "flushToolCallBuffers rt False this")
  note k1 = flushToolCallBuffers_keys[OF f]
  show ?thesis
  proof (cases err1)
    case (Some e)
    with assms f k1 show ?thesis by (simp add: flushBoth_def)
  next
    case None
    obtain this2 ps2 where a: "flushActiveTextToolCall rt this1 = (this2, ps2)"
      by (cases "flushActiveTextToolCall rt this1")
    from flushActiveTextToolCall_parts[OF a]
    have k2: "keysRecorded rt this1 ps2 this2"
      by (intro keysRecorded_no_delta) simp_all
    from assms f None a have "this' = this2" "ps = ps1 @ ps2"
      by (simp_all add: flushBoth_def)
    with keysRecorded_trans[OF k1 k2] show ?thesis by simp
  qed
qed

lemma handleEvent_keys:
  assumes "handleEvent rt m this ev = (this', ps, err)"
  shows "keysRecorded rt this ps this'"
proof (cases ev)
  case (EvText content)
  obtain this1 et ea ps1 where p: "processTextContent rt this content = (this1, et, ea, ps1)"
    by (cases "processTextContent rt this content")
  from processTextContent_inv[OF p] have "keysRecorded rt this ps1 this1"
    by (intro keysRecorded_no_delta) simp_all
  with assms EvText p show ?thesis
    by (auto simp: keysRecorded_def split: if_splits)
next
  case (EvToolCall index ident name arguments)
  let ?hint = "\<not> emittedBeginToolCallsHint this \<and> hasEmittedAssistantText this"
  let ?this1 = "if ?hint then this\<lparr>emittedBeginToolCallsHint := True\<rparr> else this"
  let ?hp = "if ?hint then [TextPart '' ''] else []"
  have k0: "keysRecorded rt this ?hp ?this1"
    by (simp add: keysRecorded_def isDeltaCall_def)
  show ?thesis
  proof (cases "index \<in> completedToolCallIndices ?this1")
    case True
    with assms EvToolCall have "this' = ?this1" "ps = ?hp"
      by (simp_all add: Let_def split: if_splits)
    with k0 show ?thesis by simp
  next
    case False
    let ?this2 = "?this1\<lparr>toolCallBuffers :=
        AList.update index (mergeDelta (bufferAt ?this1 index) ident name arguments) (toolCallBuffers ?this1)\<rparr>"
    obtain this3 ps3 where t: "tryEmitBufferedToolCall rt index ?this2 = (this3, ps3)"
      by (cases "tryEmitBufferedToolCall rt index ?this2")
    have k2: "keysRecorded rt ?this1 ps3 this3"
      using tryEmitBufferedToolCall_keys[OF t] by (simp add: keysRecorded_def)
    from assms EvToolCall False t have "this' = this3" "ps = ?hp @ ps3"
      by (simp_all add: Let_def split: if_splits)
    with keysRecorded_trans[OF k0 k2] show ?thesis by simp
  qed
next
  case (EvThinking thought ident metadata)
  with assms show ?thesis by (auto simp: keysRecorded_def isDeltaCall_def)
next
  case (EvStatefulMarker marker)
  obtain this1 ps1 err1 where f: "flushBoth rt this = (this1, ps1, err1)"
    by (cases "flushBoth rt this")
  from flushBoth_keys[OF f] assms EvStatefulMarker f show ?thesis
    by (auto simp: keysRecorded_def isDeltaCall_def)
next
  case (EvFinish reason)
  show ?thesis
  proof (cases "reason = JStr ''tool_calls'' \<or> reason = JStr ''stop''")
    case True
    with assms EvFinish have "flushToolCallBuffers rt True this = (this', ps, err)" by simp
    then show ?thesis by (rule flushToolCallBuffers_keys)
  next
    case False
    with assms EvFinish show ?thesis by (simp add: keysRecorded_def)
  qed
next
  case EvDone
  with assms have "flushBoth rt this = (this', ps, err)" by simp
  then show ?thesis by (rule flushBoth_keys)
next
  case EvSkip
  with assms show ?thesis by (simp add: keysRecorded_def)
qed

lemma processEvents_keys:
  assumes "processEvents rt m this evs = (this', pss, err)"
  shows "keysRecorded rt this (concat pss) this'"
  using assms
proof (induction evs arbitrary: this this' pss err)
  case Nil
  then show ?case by (simp add: keysRecorded_def)
next
  case (Cons ev evs)
  obtain this1 ps1 err1 where h: "handleEvent rt m this ev = (this1, ps1, err1)"
    by (cases "handleEvent rt m this ev")
  note k1 = handleEvent_keys[OF h]
  show ?case
  proof (cases err1)
    case (Some e)
    with Cons.prems h have "this' = this1" "pss = [ps1]"
      by (simp_all del: handleEvent.simps)
    with k1 show ?thesis by simp
  next
    case None
    obtain this2 pss2 err2 where r: "processEvents rt m this1 evs = (this2, pss2, err2)"
      by (cases "processEvents rt m this1 evs")
    from Cons.prems h None r have "this' = this2" "pss = ps1 # pss2"
      by (simp_all del: handleEvent.simps)
    with keysRecorded_trans[OF k1 Cons.IH[OF r]] show ?thesis by simp
  qed
qed

text \<open>
  Claim C10. Within one run of the streaming loop, from any state and whatever the events:
  once the delta channel (an eager emission or a flush) has reported a call, its key
  \<^verbatim>\<open>name:canonical-arguments\<close> is among the emitted keys of the tokenizer, and an inline
  call without an index that has this name and arguments with the same canonical text is
  not emitted: \<^verbatim>\<open>emitTextToolCallIfValid\<close> returns false, reports nothing and leaves the
  provider as it is.
\<close>

theorem cross_channel_suppression:
  assumes "processEvents rt modelId this events = (this', pss, err)"
    and "ToolCallPart cid name v \<in> set (concat pss)"
    and "cid \<noteq> RandomTctId"
    and "call_index call = None"
    and "(case call_name call of None \<Rightarrow> ''unknown_tool'' | Some n \<Rightarrow> n) = name"
    and "tryParseJSONObject rt argText = Some v'"
    and "JSON_stringify rt v' = JSON_stringify rt v"
  shows "name @ '':'' @ JSON_stringify rt v \<in> emittedTextToolCallKeys this'
    \<and> emitTextToolCallIfValid rt this' call argText = (False, this', [])"
proof -
  from processEvents_keys[OF assms(1)]
  have "\<forall>p \<in> set (concat pss). isDeltaCall p \<longrightarrow> callKey rt p \<in> emittedTextToolCallKeys this'"
    unfolding keysRecorded_def by blast
  from this[rule_format, OF assms(2)] assms(3)
  have k: "name @ '':'' @ JSON_stringify rt v \<in> emittedTextToolCallKeys this'"
    by (simp add: isDeltaCall_def callKey_def)
  then show ?thesis
    using assms(4-7) by (simp add: emitTextToolCallIfValid_def Let_def)
qed

lemma deltaFoo_run:
  "fst (snd (processEvents exampleRuntime ''m'' newProvider [deltaFoo]))
     = [[ToolCallPart (CallId ''call_1'') ''foo'' (JObj [(''x'', JNum 1)])]]"
  by code_simp

lemma inlineFoo_arguments:
  \<open>tryParseJSONObject exampleRuntime ''{ "x" : 1 }'' = Some (JObj [(''x'', JNum 1)])\<close>
  by code_simp

lemma deltaFoo_then_inline:
  "fst (snd (processEvents exampleRuntime ''m'' newProvider [deltaFoo, EvText inlineFoo]))
     = [[ToolCallPart (CallId ''call_1'') ''foo'' (JObj [(''x'', JNum 1)])], []]"
  by code_simp

text \<open>
  The call \<open>foo\<close> on the delta channel, then inline: the inline one is suppressed, and
  the stream of both reports one call.
\<close>

theorem cross_channel_suppression_witness:
  \<open>emitTextToolCallIfValid exampleRuntime
      (fst (processEvents exampleRuntime ''m'' newProvider [deltaFoo]))
      \<lparr>call_name = Some ''foo'', call_index = None, argBuffer = ''{ "x" : 1 }'', emitted = False\<rparr>
      ''{ "x" : 1 }''
    = (False, fst (processEvents exampleRuntime ''m'' newProvider [deltaFoo]), [])
   \<and> fst (snd (processEvents exampleRuntime ''m'' newProvider [deltaFoo, EvText inlineFoo]))
     = [[ToolCallPart (CallId ''call_1'') ''foo'' (JObj [(''x'', JNum 1)])], []]\<close>
proof -
  obtain this' pss err where
    r: "processEvents exampleRuntime ''m'' newProvider [deltaFoo] = (this', pss, err)"
    by (cases "processEvents exampleRuntime ''m'' (newProvider :: int provider) [deltaFoo]")
  from deltaFoo_run r
  have pss: "pss = [[ToolCallPart (CallId ''call_1'') ''foo'' (JObj [(''x'', JNum 1)])]]"
    by simp
  have m: "ToolCallPart (CallId ''call_1'') ''foo'' (JObj [(''x'', JNum 1)]) \<in> set (concat pss)"
    by (simp add: pss)
  from cross_channel_suppression[OF r m _ _ _ inlineFoo_arguments,
      of "\<lparr>call_name = Some ''foo'', call_index = None, argBuffer = ''{ \"x\" : 1 }'', emitted = False\<rparr>"]
  have \<open>emitTextToolCallIfValid exampleRuntime this'
      \<lparr>call_name = Some ''foo'', call_index = None, argBuffer = ''{ "x" : 1 }'', emitted = False\<rparr>
      ''{ "x" : 1 }'' = (False, this', [])\<close>
    by simp
  moreover have "fst (processEvents exampleRuntime ''m'' newProvider [deltaFoo]) = this'"
    by (simp only: r fst_conv)
  ultimately show ?thesis
    using deltaFoo_then_inline by (simp only: simp_thms)
qed

text \<open>
  Claim C4 fails on the code. \<^verbatim>\<open>processTextContent\<close> ends by storing \<open>data\<close> as the
  parser buffer, and \<open>data\<close> is empty on every path out of the loop, so what the loop held
  back is overwritten: the buffer is empty after every chunk. The chunks \<^verbatim>\<open>x<\<close> and
  \<^verbatim>\<open>y\<close> give the visible texts \<^verbatim>\<open>x\<close> and \<^verbatim>\<open>y\<close>, the \<^verbatim>\<open><\<close> is reported nowhere;
  a call whose header is split between two chunks is lost with its begin token.
\<close>

theorem partial_prefix_is_lost:
  "textToolParserBuffer (fst (processTextContent rt this input)) = []
   \<and> fst (snd (processEvents exampleRuntime ''m'' (newProvider :: int provider)
                  [EvText ''x<'', EvText ''y'']))
       = [[TextPart ''x''], [TextPart ''y'']]
   \<and> fst (snd (processEvents exampleRuntime ''m'' (newProvider :: int provider)
                  [EvText ''a<|tool_call_begin|>fo'', EvText ''o<|tool_call_end|>'']))
       = [[TextPart ''a''], [TextPart ''o'']]"
proof -
  obtain this' et ea ps where p: "processTextContent rt this input = (this', et, ea, ps)"
    by (cases "processTextContent rt this input")
  from processTextContent_inv[OF p] have a: "textToolParserBuffer (fst (processTextContent rt this input)) = []"
    by (simp add: p)
  have b: "fst (snd (processEvents exampleRuntime ''m'' (newProvider :: int provider)
                  [EvText ''x<'', EvText ''y'']))
       = [[TextPart ''x''], [TextPart ''y'']]"
    by code_simp
  have c: "fst (snd (processEvents exampleRuntime ''m'' (newProvider :: int provider)
                  [EvText ''a<|tool_call_begin|>fo'', EvText ''o<|tool_call_end|>'']))
       = [[TextPart ''a''], [TextPart ''o'']]"
    by code_simp
  show ?thesis using a b c by blast
qed

text \<open>
  Claim C9 fails on the code. The reset at the start of a turn empties the set of emitted
  identities \<^verbatim>\<open>_emittedTextToolCallIds\<close>; the \<^verbatim>\<open>finally\<close> block at the end of the
  stream leaves it as it is. After a stream with an inline call \<^verbatim>\<open>foo:1\<close> the set still
  holds that identity.
\<close>

theorem cleanup_keeps_emitted_ids:
  "emittedTextToolCallIds (streamCleanup this) = emittedTextToolCallIds this
   \<and> emittedTextToolCallIds (turnReset this) = {}
   \<and> emittedTextToolCallIds
        (fst (processStreamingResponse exampleRuntime ''m'' (turnReset (newProvider :: int provider))
               [EvText indexedInlineCall, EvDone]))
       = {''foo:1''}"
proof -
  have "emittedTextToolCallIds
        (fst (processStreamingResponse exampleRuntime ''m'' (turnReset (newProvider :: int provider))
               [EvText indexedInlineCall, EvDone]))
       = {''foo:1''}"
    by code_simp
  then show ?thesis
    by (simp add: streamCleanup_def turnReset_def)
qed

section \<open>Properties of the stream parsers\<close>

lemma ResponsesAdapter_parseLines_length:
  "length (snd (ResponsesAdapter_parseLines rt dispatch this lines)) = length lines"
proof (induction lines arbitrary: this)
  case Nil
  then show ?case by simp
next
  case (Cons line lines)
  obtain this1 ev where p: "ResponsesAdapter_parseStreamEvent rt dispatch this line = (this1, ev)"
    by (cases "ResponsesAdapter_parseStreamEvent rt dispatch this line")
  obtain this2 evs where r: "ResponsesAdapter_parseLines rt dispatch this1 lines = (this2, evs)"
    by (cases "ResponsesAdapter_parseLines rt dispatch this1 lines")
  from Cons.IH[of this1] r have "length evs = length lines" by simp
  then show ?case by (simp add: p r)
qed

text \<open>
  Claim C6. Each parser returns one event for every line, so a stream of lines gives as
  many events as it has lines, and no exception leaves a parser: the model has a branch
  for each one (\<^verbatim>\<open>JSON.parse\<close> throwing, the body throwing), and it ends in
  \<^verbatim>\<open>skip\<close>. A line without the data marker gives \<^verbatim>\<open>skip\<close>; for the items parser a
  line with the event marker is remembered as the event type and gives \<^verbatim>\<open>skip\<close>; a data
  line whose payload is \<^verbatim>\<open>[DONE]\<close> gives \<^verbatim>\<open>done\<close>; any other data line whose payload
  \<^verbatim>\<open>JSON.parse\<close> rejects gives \<^verbatim>\<open>skip\<close>.
\<close>

theorem parsers_return_one_event:
  "length (ChatCompletionsAdapter_parseLines rt lines) = length lines
   \<and> length (snd (ResponsesAdapter_parseLines rt dispatch this lines)) = length lines
   \<and> (\<not> startsWith line ''data:'' \<longrightarrow> ChatCompletionsAdapter_parseStreamEvent rt line = EvSkip)
   \<and> (startsWith line ''data:'' \<and> trim (drop 5 line) = ''[DONE]'' \<longrightarrow>
        ChatCompletionsAdapter_parseStreamEvent rt line = EvDone)
   \<and> (startsWith line ''data:'' \<and> trim (drop 5 line) \<noteq> ''[DONE]''
        \<and> JSON_parse rt (trim (drop 5 line)) = None \<longrightarrow>
        ChatCompletionsAdapter_parseStreamEvent rt line = EvSkip)
   \<and> (startsWith line ''event:'' \<longrightarrow>
        ResponsesAdapter_parseStreamEvent rt dispatch this line =
          (this\<lparr>lastSseEventType :=
                  Some (if trim (drop 6 line) \<noteq> [] then trim (drop 6 line) else ''message'')\<rparr>,
           EvSkip))
   \<and> (\<not> startsWith line ''event:'' \<and> \<not> startsWith line ''data:'' \<longrightarrow>
        ResponsesAdapter_parseStreamEvent rt dispatch this line = (this, EvSkip))
   \<and> (startsWith line ''data:'' \<and> trim (drop 5 line) = ''[DONE]'' \<longrightarrow>
        ResponsesAdapter_parseStreamEvent rt dispatch this line = (this, EvDone))
   \<and> (startsWith line ''data:'' \<and> trim (drop 5 line) \<noteq> ''[DONE]''
        \<and> JSON_parse rt (trim (drop 5 line)) = None \<longrightarrow>
        ResponsesAdapter_parseStreamEvent rt dispatch this line = (this, EvSkip))"
proof -
  have de: "\<not> startsWith line ''event:''" if "startsWith line ''data:''"
    using that by (auto simp: startsWith_def prefix_def)
  show ?thesis
    using de
    by (auto simp: ChatCompletionsAdapter_parseLines_def ResponsesAdapter_parseLines_length
        ChatCompletionsAdapter_parseStreamEvent_def ResponsesAdapter_parseStreamEvent_def Let_def)
qed

text \<open>A comment line, the sentinel, an event line and two truncated payloads.\<close>

theorem parsers_return_one_event_witness:
  \<open>ChatCompletionsAdapter_parseStreamEvent exampleRuntime '': keep-alive'' = EvSkip
   \<and> ChatCompletionsAdapter_parseStreamEvent exampleRuntime ''data: [DONE]'' = EvDone
   \<and> ChatCompletionsAdapter_parseStreamEvent exampleRuntime ''data: {"choices":[{"del'' = EvSkip
   \<and> ResponsesAdapter_parseStreamEvent exampleRuntime noDispatch newResponsesAdapter
        ''event: response.output_text.delta''
       = (newResponsesAdapter\<lparr>lastSseEventType := Some ''response.output_text.delta''\<rparr>, EvSkip)
   \<and> ResponsesAdapter_parseStreamEvent exampleRuntime noDispatch newResponsesAdapter '': keep-alive''
       = (newResponsesAdapter, EvSkip)
   \<and> ResponsesAdapter_parseStreamEvent exampleRuntime noDispatch newResponsesAdapter ''data: [DONE]''
       = (newResponsesAdapter, EvDone)
   \<and> ResponsesAdapter_parseStreamEvent exampleRuntime noDispatch newResponsesAdapter ''data: {"type":''
       = (newResponsesAdapter, EvSkip)\<close>
proof -
  have a: \<open>\<not> startsWith '': keep-alive'' ''data:''\<close> \<open>\<not> startsWith '': keep-alive'' ''event:''\<close>
    \<open>startsWith ''data: [DONE]'' ''data:''\<close> \<open>trim (drop 5 ''data: [DONE]'') = ''[DONE]''\<close>
    \<open>startsWith ''event: response.output_text.delta'' ''event:''\<close>
    \<open>trim (drop 6 ''event: response.output_text.delta'') = ''response.output_text.delta''\<close>
    by (simp_all add: startsWith_def trim_def isWhiteSpace_def)
  have b: \<open>startsWith ''data: {"choices":[{"del'' ''data:''\<close>
    \<open>trim (drop 5 ''data: {"choices":[{"del'') \<noteq> ''[DONE]''\<close>
    \<open>startsWith ''data: {"type":'' ''data:''\<close>
    \<open>trim (drop 5 ''data: {"type":'') \<noteq> ''[DONE]''\<close>
    by (simp_all add: startsWith_def trim_def isWhiteSpace_def)
  have c: \<open>JSON_parse exampleRuntime (trim (drop 5 ''data: {"choices":[{"del'')) = None\<close>
    \<open>JSON_parse exampleRuntime (trim (drop 5 ''data: {"type":'')) = None\<close>
    by code_simp+
  note t = parsers_return_one_event[of exampleRuntime "[]" noDispatch newResponsesAdapter]
  have w1: \<open>ChatCompletionsAdapter_parseStreamEvent exampleRuntime '': keep-alive'' = EvSkip\<close>
    \<open>ResponsesAdapter_parseStreamEvent exampleRuntime noDispatch newResponsesAdapter '': keep-alive''
       = (newResponsesAdapter, EvSkip)\<close>
    using t[of \<open>'': keep-alive''\<close>] a(1,2) by blast+
  have w2: \<open>ChatCompletionsAdapter_parseStreamEvent exampleRuntime ''data: [DONE]'' = EvDone\<close>
    \<open>ResponsesAdapter_parseStreamEvent exampleRuntime noDispatch newResponsesAdapter ''data: [DONE]''
       = (newResponsesAdapter, EvDone)\<close>
    using t[of \<open>''data: [DONE]''\<close>] a(3,4) by blast+
  have w3: \<open>ResponsesAdapter_parseStreamEvent exampleRuntime noDispatch newResponsesAdapter
        ''event: response.output_text.delta''
       = (newResponsesAdapter\<lparr>lastSseEventType := Some ''response.output_text.delta''\<rparr>, EvSkip)\<close>
    using t[of \<open>''event: response.output_text.delta''\<close>] a(5) unfolding a(6) by simp
  have w4: \<open>ChatCompletionsAdapter_parseStreamEvent exampleRuntime ''data: {"choices":[{"del'' = EvSkip\<close>
    using t[of \<open>''data: {"choices":[{"del''\<close>] b(1,2) c(1) by blast
  have w5: \<open>ResponsesAdapter_parseStreamEvent exampleRuntime noDispatch newResponsesAdapter ''data: {"type":''
       = (newResponsesAdapter, EvSkip)\<close>
    using t[of \<open>''data: {"type":''\<close>] b(3,4) c(2) by blast
  show ?thesis
    using w1 w2 w3 w4 w5 by blast
qed

lemma parsed_object: "getProp v k = Some x \<Longrightarrow> \<exists>ms. v = JObj ms"
  by (cases v) simp_all

text \<open>
  A populated \<^verbatim>\<open>tool_calls\<close> array gives the event of its first element, whatever
  the rest of the array holds: the parser returns at \<^verbatim>\<open>toolCalls[0]\<close>.
\<close>

lemma parseStreamEvent_first_tool_call:
  assumes "startsWith line ''data:''"
    and "trim (drop 5 line) \<noteq> ''[DONE]''"
    and "JSON_parse rt (trim (drop 5 line)) = Some parsed"
    and "getProp parsed ''choices'' = Some (JArr (choice # choices))"
    and "getProp choice ''delta'' = Some delta"
    and "thinkingEvent (nullish (getProp choice ''reasoning_content'')
                                (getProp delta ''reasoning_content'')) = None"
    and "truthyValue (getProp delta ''content'') = None"
    and "getProp delta ''tool_calls'' = Some (JArr (tc # tcs))"
    and "tc \<noteq> JNull"
  shows "ChatCompletionsAdapter_parseStreamEvent rt line = toolCallEvent tc
    \<and> ChatCompletionsAdapter_parseLines rt [line] = [toolCallEvent tc]
    \<and> (\<exists>ident name arguments.
          toolCallEvent tc =
            EvToolCall (case getProp tc ''index'' of None \<Rightarrow> JNum 0 | Some JNull \<Rightarrow> JNum 0 | Some v \<Rightarrow> v)
              ident name arguments)"
proof -
  from parsed_object[OF assms(4)] obtain pm where pm: "parsed = JObj pm" by blast
  from parsed_object[OF assms(5)] obtain cm where cm: "choice = JObj cm" by blast
  from parsed_object[OF assms(8)] obtain dm where dm: "delta = JObj dm" by blast
  have ch: "(case nullish (getProp parsed ''choices'') None of None \<Rightarrow> None | Some cs \<Rightarrow> index0 cs)
              = Some choice"
    by (simp add: assms(4))
  have od: "optProp (getProp choice ''delta'') k = getProp delta k" for k
    by (simp add: assms(5) dm)
  have tv: "truthyValue (getProp delta ''tool_calls'') = Some (JArr (tc # tcs))"
    by (simp add: assms(8) truthyValue_def)
  have pay: "ChatCompletionsAdapter_payload rt parsed = Some (toolCallEvent tc)"
    unfolding ChatCompletionsAdapter_payload_def ch
    using assms(5,6,7,8,9) by (simp add: pm cm dm truthyValue_def Let_def)
  have one: "ChatCompletionsAdapter_parseStreamEvent rt line = toolCallEvent tc"
    unfolding ChatCompletionsAdapter_parseStreamEvent_def Let_def
    using assms(1,2,3) pay by simp
  have idx: "\<exists>ident name arguments.
          toolCallEvent tc =
            EvToolCall (case getProp tc ''index'' of None \<Rightarrow> JNum 0 | Some JNull \<Rightarrow> JNum 0 | Some v \<Rightarrow> v)
              ident name arguments"
    by (cases "getProp tc ''index''"; cases "the (getProp tc ''index'')")
       (simp_all add: toolCallEvent_def Let_def)
  show ?thesis
    using one idx by (simp add: ChatCompletionsAdapter_parseLines_def)
qed

lemma twoCallsLine_parsed:
  \<open>JSON_parse exampleRuntime (trim (drop 5 twoCallsLine)) =
     Some (JObj [(''choices'', JArr [JObj [(''delta'', JObj [(''tool_calls'',
        JArr [JObj [(''index'', JNum 0), (''id'', JStr ''call_1''),
                    (''function'', JObj [(''name'', JStr ''f''), (''arguments'', JStr ''{}'')])],
              JObj [(''index'', JNum 1), (''id'', JStr ''call_2''),
                    (''function'', JObj [(''name'', JStr ''g''), (''arguments'', JStr ''{}'')])]])])]])])\<close>
  by code_simp

text \<open>
  Claim C7 fails on the code. The chat-protocol parser returns at the first element of the
  \<^verbatim>\<open>tool_calls\<close> array, where the delta loop of the provider it replaces went through
  every call of the array (\<^verbatim>\<open>for (const tc of toolCalls)\<close>). The line whose array
  holds the calls \<^verbatim>\<open>f\<close> at index 0 and \<^verbatim>\<open>g\<close> at index 1 gives the event of \<^verbatim>\<open>f\<close>
  alone, and the turn that reads this line and the end-of-stream sentinel reports the call
  \<^verbatim>\<open>f\<close> only; one event for each call of the array reports both calls.
\<close>

theorem later_tool_calls_are_lost:
  \<open>JSON_parse exampleRuntime (trim (drop 5 twoCallsLine)) =
     Some (JObj [(''choices'', JArr [JObj [(''delta'', JObj [(''tool_calls'',
        JArr [JObj [(''index'', JNum 0), (''id'', JStr ''call_1''),
                    (''function'', JObj [(''name'', JStr ''f''), (''arguments'', JStr ''{}'')])],
              JObj [(''index'', JNum 1), (''id'', JStr ''call_2''),
                    (''function'', JObj [(''name'', JStr ''g''), (''arguments'', JStr ''{}'')])]])])]])])
   \<and> ChatCompletionsAdapter_parseLines exampleRuntime [twoCallsLine]
     = [EvToolCall (JNum 0) (Some ''call_1'') (Some ''f'') (Some ''{}'')]
   \<and> fst (snd (processStreamingResponse exampleRuntime ''m'' (turnReset newProvider)
         (ChatCompletionsAdapter_parseLines exampleRuntime [twoCallsLine, ''data: [DONE]''])))
     = [[ToolCallPart (CallId ''call_1'') ''f'' (JObj [])], []]
   \<and> fst (snd (processStreamingResponse exampleRuntime ''m'' (turnReset newProvider)
         (map toolCallEvent
            [JObj [(''index'', JNum 0), (''id'', JStr ''call_1''),
                   (''function'', JObj [(''name'', JStr ''f''), (''arguments'', JStr ''{}'')])],
             JObj [(''index'', JNum 1), (''id'', JStr ''call_2''),
                   (''function'', JObj [(''name'', JStr ''g''), (''arguments'', JStr ''{}'')])]]
          @ [EvDone])))
     = [[ToolCallPart (CallId ''call_1'') ''f'' (JObj [])],
        [ToolCallPart (CallId ''call_2'') ''g'' (JObj [])], []]\<close>
  by code_simp

section \<open>Properties of the items-protocol request builder\<close>

lemma indexOf_char:
  "indexOf s [c] = (if c \<in> set s then Some (length (takeWhile (\<lambda>x. x \<noteq> c) s)) else None)"
  by (induction s) auto

lemma markerOfPart_iff:
  "markerOfPart rt modelId part = Some rid \<longleftrightarrow>
     (\<exists>bytes. part = MsgData ''stateful_marker'' bytes
        \<and> TextDecoder_decode rt bytes = modelId @ [CHR 0x5C] @ rid
        \<and> modelId \<noteq> [] \<and> rid \<noteq> [] \<and> CHR 0x5C \<notin> set modelId)"
proof (cases part)
  case (MsgData mimeType bytes)
  let ?raw = "TextDecoder_decode rt bytes"
  let ?mid = "takeWhile (\<lambda>x. x \<noteq> CHR 0x5C) ?raw"
  show ?thesis
  proof (cases "mimeType = ''stateful_marker''")
    case False
    then show ?thesis by (simp add: MsgData markerOfPart_def)
  next
    case True
    show ?thesis
    proof (cases "CHR 0x5C \<in> set ?raw")
      case False
      then have "markerOfPart rt modelId part = None"
        by (simp add: MsgData True markerOfPart_def indexOf_char)
      moreover have "?raw \<noteq> modelId @ [CHR 0x5C] @ rid"
        using False by auto
      ultimately show ?thesis by (simp add: MsgData)
    next
      case c: True
      have split: "?raw = ?mid @ [CHR 0x5C] @ drop (length ?mid + 1) ?raw"
      proof -
        have "dropWhile (\<lambda>x. x \<noteq> CHR 0x5C) ?raw \<noteq> []" using c by simp
        moreover have "hd (dropWhile (\<lambda>x. x \<noteq> CHR 0x5C) ?raw) = CHR 0x5C"
          using hd_dropWhile[OF calculation] by simp
        ultimately have "dropWhile (\<lambda>x. x \<noteq> CHR 0x5C) ?raw
            = CHR 0x5C # tl (dropWhile (\<lambda>x. x \<noteq> CHR 0x5C) ?raw)"
          by (cases "dropWhile (\<lambda>x. x \<noteq> CHR 0x5C) ?raw") simp_all
        moreover have "drop (length ?mid + 1) ?raw = tl (dropWhile (\<lambda>x. x \<noteq> CHR 0x5C) ?raw)"
          by (simp add: dropWhile_eq_drop drop_Suc tl_drop)
        ultimately show ?thesis
          by (metis append_Cons append_Nil takeWhile_dropWhile_id)
      qed
      have m: "markerOfPart rt modelId part =
          (if ?mid = [] \<or> drop (length ?mid + 1) ?raw = [] then None
           else if ?mid \<noteq> modelId then None else Some (drop (length ?mid + 1) ?raw))"
      proof -
        have tk: "take (length ?mid) ?raw = ?mid"
          by (rule takeWhile_eq_take[symmetric])
        have ix: "indexOf ?raw [CHR 0x5C] = Some (length ?mid)"
          using c by (simp add: indexOf_char)
        have z: "length ?mid \<le> 0 \<longleftrightarrow> ?mid = []" by simp
        show ?thesis
          unfolding markerOfPart_def MsgData message_part.case True if_True Let_def ix option.case tk z
          by auto
      qed
      show ?thesis
      proof
        assume a: "markerOfPart rt modelId part = Some rid"
        with m have "?mid = modelId" "drop (length ?mid + 1) ?raw = rid" "?mid \<noteq> []" "rid \<noteq> []"
          by (auto split: if_splits)
        moreover have "CHR 0x5C \<notin> set ?mid"
          by (auto dest: set_takeWhileD)
        ultimately show "\<exists>bytes. part = MsgData ''stateful_marker'' bytes
            \<and> TextDecoder_decode rt bytes = modelId @ [CHR 0x5C] @ rid
            \<and> modelId \<noteq> [] \<and> rid \<noteq> [] \<and> CHR 0x5C \<notin> set modelId"
          using split MsgData True by auto
      next
        assume "\<exists>bytes. part = MsgData ''stateful_marker'' bytes
            \<and> TextDecoder_decode rt bytes = modelId @ [CHR 0x5C] @ rid
            \<and> modelId \<noteq> [] \<and> rid \<noteq> [] \<and> CHR 0x5C \<notin> set modelId"
        then have r: "?raw = modelId @ [CHR 0x5C] @ rid" and ne: "modelId \<noteq> []" "rid \<noteq> []"
          and nb: "CHR 0x5C \<notin> set modelId"
          using MsgData by auto
        have "takeWhile (\<lambda>x. x \<noteq> CHR 0x5C) (modelId @ CHR 0x5C # rid) = modelId"
          using nb by (induction modelId) auto
        then have "?mid = modelId"
          unfolding r by simp
        then show "markerOfPart rt modelId part = Some rid"
          unfolding m using ne r by simp
      qed
    qed
  qed
qed (simp_all add: markerOfPart_def)

lemma scanParts_none:
  assumes "\<forall>q \<in> set parts. markerOfPart rt modelId q = None"
  shows "scanParts rt modelId i lastFound parts = lastFound"
  using assms by (induction parts arbitrary: lastFound) simp_all

lemma scanParts_append:
  "scanParts rt modelId i lastFound (ps @ qs)
     = scanParts rt modelId i (scanParts rt modelId i lastFound ps) qs"
  by (induction ps arbitrary: lastFound) simp_all

lemma scanParts_last:
  assumes "markerOfPart rt modelId part = Some rid"
    and "\<forall>q \<in> set parts2. markerOfPart rt modelId q = None"
  shows "scanParts rt modelId i lastFound (parts1 @ [part] @ parts2) = Some (rid, i + 1)"
  using assms by (simp add: scanParts_append scanParts_none)

lemma scanMessages_none:
  assumes "\<forall>m \<in> set msgs. \<forall>q \<in> set (msg_content m). markerOfPart rt modelId q = None"
  shows "scanMessages rt modelId i lastFound msgs = lastFound"
  using assms by (induction msgs arbitrary: i lastFound) (simp_all add: scanParts_none)

lemma scanMessages_append:
  "scanMessages rt modelId i lastFound (ms @ ns)
     = scanMessages rt modelId (i + length ms) (scanMessages rt modelId i lastFound ms) ns"
  by (induction ms arbitrary: i lastFound) simp_all

lemma extract_last:
  assumes "markerOfPart rt modelId part = Some rid"
    and "\<forall>q \<in> set parts2. markerOfPart rt modelId q = None"
    and "\<forall>m \<in> set after. \<forall>q \<in> set (msg_content m). markerOfPart rt modelId q = None"
  shows "extractPreviousResponseId rt
           (before @ [\<lparr>msg_role = r, msg_content = parts1 @ [part] @ parts2\<rparr>] @ after) modelId
         = Some (rid, length before + 1)"
  unfolding extractPreviousResponseId_def scanMessages_append
  using scanParts_last[OF assms(1,2)] scanMessages_none[OF assms(3)]
  by simp

text \<open>
  Claim C5. With stateful continuation enabled: a part is a marker for the current model
  exactly when it is a \<^verbatim>\<open>stateful_marker\<close> data part whose text is the model id, a
  backslash and a response id, both not empty (the model id is read up to the first
  backslash, so it holds none). If such a marker is the last one of its message and no
  later message holds one, the request carries its response id as
  \<^verbatim>\<open>previous_response_id\<close> and its items are those of the messages after the marker's
  message. A part that embeds another model id is no marker for the model: when no part
  is one, no id is sent and all messages are.
\<close>

theorem history_truncation:
  assumes "supportsStatefulResponses cfg \<noteq> Some False"
  shows "(markerOfPart rt (model_id cfg) part = Some rid \<longleftrightarrow>
            (\<exists>bytes. part = MsgData ''stateful_marker'' bytes
               \<and> TextDecoder_decode rt bytes = model_id cfg @ [CHR 0x5C] @ rid
               \<and> model_id cfg \<noteq> [] \<and> rid \<noteq> [] \<and> CHR 0x5C \<notin> set (model_id cfg)))
    \<and> (markerOfPart rt (model_id cfg) part = Some rid
         \<and> (\<forall>q \<in> set parts2. markerOfPart rt (model_id cfg) q = None)
         \<and> (\<forall>m \<in> set after. \<forall>q \<in> set (msg_content m). markerOfPart rt (model_id cfg) q = None)
        \<longrightarrow>
          req_previous_response_id
            (ResponsesAdapter_buildRequest rt cfg
               (before @ [\<lparr>msg_role = r, msg_content = parts1 @ [part] @ parts2\<rparr>] @ after))
            = Some rid
          \<and> req_input
            (ResponsesAdapter_buildRequest rt cfg
               (before @ [\<lparr>msg_role = r, msg_content = parts1 @ [part] @ parts2\<rparr>] @ after))
            = convertMessagesToItems rt cfg after)
    \<and> ((\<forall>m \<in> set messages. \<forall>q \<in> set (msg_content m). markerOfPart rt (model_id cfg) q = None)
        \<longrightarrow>
          req_previous_response_id (ResponsesAdapter_buildRequest rt cfg messages) = None
          \<and> req_input (ResponsesAdapter_buildRequest rt cfg messages)
              = convertMessagesToItems rt cfg messages)"
proof -
  have a: "req_previous_response_id
            (ResponsesAdapter_buildRequest rt cfg
               (before @ [\<lparr>msg_role = r, msg_content = parts1 @ [part] @ parts2\<rparr>] @ after))
            = Some rid
          \<and> req_input
            (ResponsesAdapter_buildRequest rt cfg
               (before @ [\<lparr>msg_role = r, msg_content = parts1 @ [part] @ parts2\<rparr>] @ after))
            = convertMessagesToItems rt cfg after"
    if m: "markerOfPart rt (model_id cfg) part = Some rid"
      and p: "\<forall>q \<in> set parts2. markerOfPart rt (model_id cfg) q = None"
      and q: "\<forall>m \<in> set after. \<forall>q \<in> set (msg_content m). markerOfPart rt (model_id cfg) q = None"
  proof -
    from m markerOfPart_iff[of rt "model_id cfg" part rid] have ne: "rid \<noteq> []" by blast
    show ?thesis
      unfolding ResponsesAdapter_buildRequest_def Let_def extract_last[OF m p q]
      using assms ne by simp
  qed
  have b: "req_previous_response_id (ResponsesAdapter_buildRequest rt cfg messages) = None
          \<and> req_input (ResponsesAdapter_buildRequest rt cfg messages)
              = convertMessagesToItems rt cfg messages"
    if "\<forall>m \<in> set messages. \<forall>q \<in> set (msg_content m). markerOfPart rt (model_id cfg) q = None"
    unfolding ResponsesAdapter_buildRequest_def Let_def extractPreviousResponseId_def
      scanMessages_none[OF that]
    by simp
  show ?thesis
    using markerOfPart_iff[of rt "model_id cfg" part rid] a b by blast
qed

text \<open>
  The three messages of the adapter test, with a marker for the model and with a marker
  for another one.
\<close>

theorem history_truncation_witness:
  "req_previous_response_id
     (ResponsesAdapter_buildRequest exampleRuntime testConfig (threeMessages ''test-model''))
     = Some ''resp_123''
   \<and> req_input (ResponsesAdapter_buildRequest exampleRuntime testConfig (threeMessages ''test-model''))
     = [MessageItem RoleUser [InputText ''NEW'']]
   \<and> req_previous_response_id
     (ResponsesAdapter_buildRequest exampleRuntime testConfig (threeMessages ''other-model''))
     = None
   \<and> req_input (ResponsesAdapter_buildRequest exampleRuntime testConfig (threeMessages ''other-model''))
     = [MessageItem RoleUser [InputText ''OLD''], MessageItem RoleUser [InputText ''NEW'']]"
proof -
  let ?m1 = "\<lparr>msg_role = User, msg_content = [MsgText ''OLD'']\<rparr>"
  let ?m3 = "\<lparr>msg_role = User, msg_content = [MsgText ''NEW'']\<rparr>"
  let ?marker = "MsgData ''stateful_marker'' (''test-model'' @ [CHR 0x5C] @ ''resp_123'')"
  have h0: "supportsStatefulResponses testConfig \<noteq> Some False"
    by (simp add: testConfig_def)
  have h1: "markerOfPart exampleRuntime (model_id testConfig) ?marker = Some ''resp_123''"
    by code_simp
  have h2: "\<forall>q \<in> set []. markerOfPart exampleRuntime (model_id testConfig) q = None"
    by simp
  have h3: "\<forall>m \<in> set [?m3]. \<forall>q \<in> set (msg_content m).
              markerOfPart exampleRuntime (model_id testConfig) q = None"
    by (simp add: markerOfPart_def)
  have h4: "\<forall>m \<in> set (threeMessages ''other-model''). \<forall>q \<in> set (msg_content m).
              markerOfPart exampleRuntime (model_id testConfig) q = None"
    by (simp add: threeMessages_def markerOfPart_def exampleRuntime_def testConfig_def Let_def)
  have e: "threeMessages ''test-model'' =
             [?m1] @ [\<lparr>msg_role = Assistant, msg_content = [] @ [?marker] @ []\<rparr>] @ [?m3]"
    by (simp add: threeMessages_def)
  have c1: "convertMessagesToItems exampleRuntime testConfig [?m3] = [MessageItem RoleUser [InputText ''NEW'']]"
    by code_simp
  have c2: "convertMessagesToItems exampleRuntime testConfig (threeMessages ''other-model'')
      = [MessageItem RoleUser [InputText ''OLD''], MessageItem RoleUser [InputText ''NEW'']]"
    by code_simp
  note t = history_truncation[OF h0, of exampleRuntime ?marker "''resp_123''" "[]" "[?m3]" "[?m1]"
      Assistant "[]" "threeMessages ''other-model''"]
  from t h1 h2 h3 have
    "req_previous_response_id
       (ResponsesAdapter_buildRequest exampleRuntime testConfig (threeMessages ''test-model''))
       = Some ''resp_123''
     \<and> req_input (ResponsesAdapter_buildRequest exampleRuntime testConfig (threeMessages ''test-model''))
       = convertMessagesToItems exampleRuntime testConfig [?m3]"
    unfolding e by blast
  moreover from t h4 have
    "req_previous_response_id
       (ResponsesAdapter_buildRequest exampleRuntime testConfig (threeMessages ''other-model''))
       = None
     \<and> req_input (ResponsesAdapter_buildRequest exampleRuntime testConfig (threeMessages ''other-model''))
       = convertMessagesToItems exampleRuntime testConfig (threeMessages ''other-model'')"
    by blast
  ultimately show ?thesis
    unfolding c1 c2 by blast
qed

end
